theory Spec2Isabelle
  imports Main "HOL-Library.Word"
begin

unbundle bit_operations_syntax

section \<open>Go standard library: strings\<close>

text \<open>
  A Go string is a sequence of bytes; it is modelled as a \<open>string\<close> (a list of 8-bit
  characters). The functions of this section are not code of the repository: they model
  the packages \<open>unicode/utf8\<close>, \<open>unicode\<close> and \<open>strings\<close> of the Go standard library, which
  \<open>parsePrefixes\<close> and \<open>main\<close> call. A rune is a Unicode code point, a \<open>nat\<close>.
\<close>

definition RuneError :: nat where
  "RuneError = 0xFFFD"

text \<open>
  \<open>utf8.DecodeRuneInString\<close>: the first rune of the string and its width in bytes.
  The empty string gives \<open>(RuneError, 0)\<close>, an invalid or truncated encoding
  \<open>(RuneError, 1)\<close>. The leading byte fixes the width (\<open>first\<close>) and the range accepted
  for the second byte (\<open>acceptRanges\<close>: \<open>0xE0\<close>, \<open>0xED\<close>, \<open>0xF0\<close> and \<open>0xF4\<close> narrow it, so
  that no overlong form, no surrogate and nothing above \<open>U+10FFFF\<close> decodes); the other
  continuation bytes are in \<open>locb..hicb\<close>. Bytes are read as numbers.
\<close>

definition acceptRanges :: "nat \<Rightarrow> nat \<times> nat" where
  "acceptRanges s0 =
    (if s0 = 0xE0 then (0xA0, 0xBF)
     else if s0 = 0xED then (0x80, 0x9F)
     else if s0 = 0xF0 then (0x90, 0xBF)
     else if s0 = 0xF4 then (0x80, 0x8F)
     else (0x80, 0xBF))"

definition accepted :: "nat \<times> nat \<Rightarrow> nat \<Rightarrow> bool" where
  "accepted rng b \<longleftrightarrow> fst rng \<le> b \<and> b \<le> snd rng"

definition locb_hicb :: "nat \<times> nat" where
  "locb_hicb = (0x80, 0xBF)"

fun decode2 :: "nat \<Rightarrow> nat list \<Rightarrow> nat \<times> nat" where
  "decode2 s0 (s1 # t) =
     (if accepted (acceptRanges s0) s1 then ((s0 mod 32) * 64 + s1 mod 64, 2)
      else (RuneError, 1))"
| "decode2 s0 [] = (RuneError, 1)"

fun decode3 :: "nat \<Rightarrow> nat list \<Rightarrow> nat \<times> nat" where
  "decode3 s0 (s1 # s2 # t) =
     (if accepted (acceptRanges s0) s1 \<and> accepted locb_hicb s2
      then ((s0 mod 16) * 4096 + (s1 mod 64) * 64 + s2 mod 64, 3)
      else (RuneError, 1))"
| "decode3 s0 t = (RuneError, 1)"

fun decode4 :: "nat \<Rightarrow> nat list \<Rightarrow> nat \<times> nat" where
  "decode4 s0 (s1 # s2 # s3 # t) =
     (if accepted (acceptRanges s0) s1 \<and> accepted locb_hicb s2 \<and> accepted locb_hicb s3
      then ((s0 mod 8) * 262144 + (s1 mod 64) * 4096 + (s2 mod 64) * 64 + s3 mod 64, 4)
      else (RuneError, 1))"
| "decode4 s0 t = (RuneError, 1)"

fun decodeRune :: "nat list \<Rightarrow> nat \<times> nat" where
  "decodeRune [] = (RuneError, 0)"
| "decodeRune (s0 # t) =
     (if s0 < 0x80 then (s0, 1)
      else if s0 < 0xC2 \<or> 0xF4 < s0 then (RuneError, 1)
      else if s0 < 0xE0 then decode2 s0 t
      else if s0 < 0xF0 then decode3 s0 t
      else decode4 s0 t)"

definition DecodeRuneInString :: "string \<Rightarrow> nat \<times> nat" where
  "DecodeRuneInString s = decodeRune (map of_char s)"

lemma decode2_width: "decode2 s0 t = (r, sz) \<Longrightarrow> 1 \<le> sz \<and> sz \<le> Suc (length t)"
  by (cases t) (auto split: if_splits)

lemma decode3_width: "decode3 s0 t = (r, sz) \<Longrightarrow> 1 \<le> sz \<and> sz \<le> Suc (length t)"
  by (cases "(s0, t)" rule: decode3.cases) (auto split: if_splits)

lemma decode4_width: "decode4 s0 t = (r, sz) \<Longrightarrow> 1 \<le> sz \<and> sz \<le> Suc (length t)"
  by (cases "(s0, t)" rule: decode4.cases) (auto split: if_splits)

lemma DecodeRuneInString_width:
  "s \<noteq> [] \<Longrightarrow> DecodeRuneInString s = (r, sz) \<Longrightarrow> 1 \<le> sz \<and> sz \<le> length s"
  using decode2_width [of "of_char (hd s)" "map of_char (tl s)" r sz]
    decode3_width [of "of_char (hd s)" "map of_char (tl s)" r sz]
    decode4_width [of "of_char (hd s)" "map of_char (tl s)" r sz]
  by (cases s) (auto simp: DecodeRuneInString_def split: if_splits)

text \<open>
  The iteration \<open>for _, r := range s\<close> over a string: the runes in order, each with
  the bytes it was decoded from (an invalid byte is a \<open>RuneError\<close> of width 1).
\<close>

function range_string :: "string \<Rightarrow> (nat \<times> string) list" where
  "range_string s =
    (if s = [] then []
     else (fst (DecodeRuneInString s), take (snd (DecodeRuneInString s)) s)
            # range_string (drop (snd (DecodeRuneInString s)) s))"
  by pat_completeness auto
termination
proof (relation "measure length")
  show "wf (measure length)" by simp
next
  fix s :: string
  assume "s \<noteq> []"
  then have "1 \<le> snd (DecodeRuneInString s)"
    using DecodeRuneInString_width [of s "fst (DecodeRuneInString s)" "snd (DecodeRuneInString s)"]
    by simp
  with \<open>s \<noteq> []\<close> show "(drop (snd (DecodeRuneInString s)) s, s) \<in> measure length"
    by (cases s) auto
qed

declare range_string.simps [simp del]

text \<open>
  \<open>unicode.IsSpace\<close>: the Unicode White_Space property. In Latin-1 these are
  \<open>\t \n \v \f \r\<close>, the space, \<open>U+0085\<close> and \<open>U+00A0\<close>.
\<close>

definition IsSpace :: "nat \<Rightarrow> bool" where
  "IsSpace r \<longleftrightarrow>
     r = 0x09 \<or> r = 0x0A \<or> r = 0x0B \<or> r = 0x0C \<or> r = 0x0D \<or> r = 0x20
   \<or> r = 0x85 \<or> r = 0xA0 \<or> r = 0x1680 \<or> (0x2000 \<le> r \<and> r \<le> 0x200A)
   \<or> r = 0x2028 \<or> r = 0x2029 \<or> r = 0x202F \<or> r = 0x205F \<or> r = 0x3000"

text \<open>
  \<open>strings.FieldsFunc\<close>: the maximal runs of runes that do not satisfy \<open>f\<close>. The Go
  loop keeps the start of the field it is in (\<open>start >= 0\<close>) and closes the field at
  the next rune that satisfies \<open>f\<close>, or at the end of the string; here the field being
  read is kept itself (\<open>None\<close> when outside a field).
\<close>

fun FieldsFunc_loop :: "(nat \<Rightarrow> bool) \<Rightarrow> string option \<Rightarrow> (nat \<times> string) list \<Rightarrow> string list" where
  "FieldsFunc_loop f None [] = []"
| "FieldsFunc_loop f (Some cur) [] = [cur]"
| "FieldsFunc_loop f None ((r, bs) # rest) =
     (if f r then FieldsFunc_loop f None rest else FieldsFunc_loop f (Some bs) rest)"
| "FieldsFunc_loop f (Some cur) ((r, bs) # rest) =
     (if f r then cur # FieldsFunc_loop f None rest
      else FieldsFunc_loop f (Some (cur @ bs)) rest)"

definition FieldsFunc :: "string \<Rightarrow> (nat \<Rightarrow> bool) \<Rightarrow> string list" where
  "FieldsFunc s f = FieldsFunc_loop f None (range_string s)"

text \<open>
  \<open>strings.Fields\<close> splits around each run of white space as \<open>unicode.IsSpace\<close> defines
  it (its fast path for ASCII strings computes the same fields).
\<close>

definition Fields :: "string \<Rightarrow> string list" where
  "Fields s = FieldsFunc s IsSpace"

text \<open>\<open>strings.HasPrefix\<close>: \<open>len(s) >= len(prefix) && s[:len(prefix)] == prefix\<close>.\<close>

definition HasPrefix :: "string \<Rightarrow> string \<Rightarrow> bool" where
  "HasPrefix s pre \<longleftrightarrow> length pre \<le> length s \<and> take (length pre) s = pre"

text \<open>
  \<open>strings.ReplaceAll(s, old, new)\<close>: the non-overlapping occurrences of \<open>old\<close>, found
  from the left, replaced by \<open>new\<close>. With an empty \<open>old\<close>, \<open>new\<close> is put before the
  string and after each rune.
\<close>

function ReplaceAll_nonempty :: "string \<Rightarrow> string \<Rightarrow> string \<Rightarrow> string" where
  "ReplaceAll_nonempty s old new =
    (if s = [] \<or> old = [] then s
     else if HasPrefix s old then new @ ReplaceAll_nonempty (drop (length old) s) old new
     else hd s # ReplaceAll_nonempty (tl s) old new)"
  by pat_completeness auto
termination
  by (relation "measure (\<lambda>(s, old, new). length s)") (auto simp: neq_Nil_conv)

declare ReplaceAll_nonempty.simps [simp del]

definition ReplaceAll :: "string \<Rightarrow> string \<Rightarrow> string \<Rightarrow> string" where
  "ReplaceAll s old new =
    (if old = [] then new @ concat (map (\<lambda>(r, bs). bs @ new) (range_string s))
     else ReplaceAll_nonempty s old new)"

section \<open>Go standard library: net\<close>

text \<open>
  The package \<open>net\<close> of the Go standard library, as far as \<open>setupPrivateIPBlocks\<close>,
  \<open>isPrivateIP\<close> and \<open>main\<close> use it. An \<open>IP\<close> is a byte slice (\<open>type IP []byte\<close>) of
  length 4 (IPv4) or 16 (IPv6, or IPv4 in its IPv4-in-IPv6 form); the \<open>nil\<close> slice is
  the empty list (no function here builds an empty slice that is not \<open>nil\<close>).
\<close>

type_synonym byte = "8 word"
type_synonym IP = "byte list"
type_synonym IPMask = "byte list"

record IPNet =
  IP :: IP
  Mask :: IPMask

definition v4InV6Prefix :: "byte list" where
  "v4InV6Prefix = [0, 0, 0, 0, 0, 0, 0, 0, 0, 0, 0xff, 0xff]"

definition IPv6loopback :: IP where
  "IPv6loopback = [0, 0, 0, 0, 0, 0, 0, 0, 0, 0, 0, 0, 0, 0, 0, 1]"

text \<open>
  \<open>IP.To4\<close>: a 4-byte address is returned as it is, a 16-byte address with the
  IPv4-in-IPv6 prefix gives its last four bytes, anything else \<open>nil\<close>.
\<close>

definition To4 :: "IP \<Rightarrow> IP" where
  "To4 ip =
    (if length ip = 4 then ip
     else if length ip = 16 \<and> list_all (\<lambda>b. b = 0) (take 10 ip)
             \<and> ip ! 10 = 0xff \<and> ip ! 11 = 0xff
     then drop 12 ip
     else [])"

definition IP_Equal :: "IP \<Rightarrow> IP \<Rightarrow> bool" where
  "IP_Equal ip x \<longleftrightarrow>
    (if length ip = length x then ip = x
     else if length ip = 4 \<and> length x = 16 then take 12 x = v4InV6Prefix \<and> ip = drop 12 x
     else if length ip = 16 \<and> length x = 4 then take 12 ip = v4InV6Prefix \<and> drop 12 ip = x
     else False)"

definition IsLoopback :: "IP \<Rightarrow> bool" where
  "IsLoopback ip \<longleftrightarrow>
    (let ip4 = To4 ip in
     if ip4 \<noteq> [] then ip4 ! 0 = 127 else IP_Equal ip IPv6loopback)"

definition IsLinkLocalUnicast :: "IP \<Rightarrow> bool" where
  "IsLinkLocalUnicast ip \<longleftrightarrow>
    (let ip4 = To4 ip in
     if ip4 \<noteq> [] then ip4 ! 0 = 169 \<and> ip4 ! 1 = 254
     else length ip = 16 \<and> ip ! 0 = 0xfe \<and> (ip ! 1) AND 0xc0 = 0x80)"

definition IsLinkLocalMulticast :: "IP \<Rightarrow> bool" where
  "IsLinkLocalMulticast ip \<longleftrightarrow>
    (let ip4 = To4 ip in
     if ip4 \<noteq> [] then ip4 ! 0 = 224 \<and> ip4 ! 1 = 0 \<and> ip4 ! 2 = 0
     else length ip = 16 \<and> ip ! 0 = 0xff \<and> (ip ! 1) AND 0x0f = 0x02)"

text \<open>
  \<open>IPNet.Contains\<close>: the network number and the mask are brought to the length of the
  address (\<open>networkNumberAndMask\<close>), and the address is in the network when the two agree
  on every masked byte. The loop over the bytes returns false at the first difference.
\<close>

definition networkNumberAndMask :: "IPNet \<Rightarrow> IP \<times> IPMask" where
  "networkNumberAndMask n =
    (let ip = (if To4 (IP n) = [] then IP n else To4 (IP n)) in
     if To4 (IP n) = [] \<and> length ip \<noteq> 16 then ([], [])
     else if length (Mask n) = 4 then (if length ip \<noteq> 4 then ([], []) else (ip, Mask n))
     else if length (Mask n) = 16 then (if length ip = 4 then (ip, drop 12 (Mask n)) else (ip, Mask n))
     else ([], []))"

fun Contains_loop :: "IP \<Rightarrow> IPMask \<Rightarrow> IP \<Rightarrow> bool" where
  "Contains_loop (n # nn) (m # ms) (b # ip) =
     (if n AND m \<noteq> b AND m then False else Contains_loop nn ms ip)"
| "Contains_loop nn ms ip = True"

definition Contains :: "IPNet \<Rightarrow> IP \<Rightarrow> bool" where
  "Contains n ip0 =
    (let (nn, m) = networkNumberAndMask n;
         ip = (if To4 ip0 \<noteq> [] then To4 ip0 else ip0)
     in if length ip \<noteq> length nn then False else Contains_loop nn m ip)"

text \<open>
  \<open>CIDRMask(ones, bits)\<close>: \<open>ones\<close> 1-bits followed by 0-bits, \<open>bits / 8\<close> bytes long;
  \<open>nil\<close> unless \<open>bits\<close> is 32 or 128 and \<open>0 <= ones <= bits\<close>.
\<close>

fun CIDRMask_loop :: "nat \<Rightarrow> nat \<Rightarrow> IPMask" where
  "CIDRMask_loop 0 n = []"
| "CIDRMask_loop (Suc l) n =
     (if 8 \<le> n then 0xff # CIDRMask_loop l (n - 8)
      else NOT (drop_bit n (0xff :: byte)) # CIDRMask_loop l 0)"

definition CIDRMask :: "int \<Rightarrow> int \<Rightarrow> IPMask" where
  "CIDRMask ones bits =
    (if bits \<noteq> 32 \<and> bits \<noteq> 128 then []
     else if ones < 0 \<or> bits < ones then []
     else CIDRMask_loop (nat bits div 8) (nat ones))"

text \<open>\<open>IP.Mask\<close>: the address with the mask applied bytewise, \<open>nil\<close> when the lengths differ.\<close>

definition IP_Mask :: "IP \<Rightarrow> IPMask \<Rightarrow> IP" where
  "IP_Mask ip0 mask0 =
    (let mask = (if length mask0 = 16 \<and> length ip0 = 4 \<and> list_all (\<lambda>b. b = 0xff) (take 12 mask0)
                 then drop 12 mask0 else mask0);
         ip = (if length mask = 4 \<and> length ip0 = 16 \<and> take 12 ip0 = v4InV6Prefix
               then drop 12 ip0 else ip0)
     in if length ip \<noteq> length mask then [] else map (\<lambda>(b, m). b AND m) (zip ip mask))"

subsection \<open>Parsing CIDR notation\<close>

text \<open>
  \<open>net.ParseCIDR\<close> and what it calls: \<open>netip.ParseAddr\<close> with its IPv4 and IPv6
  parsers, \<open>dtoi\<close> for the prefix length, \<open>CIDRMask\<close> and \<open>IP.Mask\<close>. An error is a
  value of the type \<open>error\<close>; \<open>ParseError\<close> carries its fields \<open>Type\<close> and \<open>Text\<close>.
\<close>

datatype error = ParseError string string | Error string

definition isDigit :: "char \<Rightarrow> bool" where
  "isDigit c \<longleftrightarrow> (48::nat) \<le> of_char c \<and> of_char c \<le> (57::nat)"

definition digitVal :: "char \<Rightarrow> nat" where
  "digitVal c = of_char c - 48"

text \<open>
  \<open>dtoi\<close>: the decimal number at the start of the string, the number of characters
  read, and whether a number was read that is smaller than \<open>big = 0xFFFFFF\<close>.
\<close>

fun dtoi_loop :: "string \<Rightarrow> nat \<Rightarrow> nat \<Rightarrow> nat \<times> nat \<times> bool" where
  "dtoi_loop [] n i = (if i = 0 then (0, 0, False) else (n, i, True))"
| "dtoi_loop (c # cs) n i =
     (if isDigit c then
        (if 0xFFFFFF \<le> n * 10 + digitVal c then (0xFFFFFF, i, False)
         else dtoi_loop cs (n * 10 + digitVal c) (i + 1))
      else if i = 0 then (0, 0, False) else (n, i, True))"

definition dtoi :: "string \<Rightarrow> nat \<times> nat \<times> bool" where
  "dtoi s = dtoi_loop s 0 0"

text \<open>
  \<open>parseIPv4Fields\<close>: four decimal fields separated by dots, each at most 255 and
  without a leading zero. The arguments are the rest of the string, the character
  before it, the value and the number of digits of the field being read, and the
  fields read so far.
\<close>

fun parseIPv4Fields_loop ::
  "string \<Rightarrow> char option \<Rightarrow> nat \<Rightarrow> nat \<Rightarrow> byte list \<Rightarrow> byte list option" where
  "parseIPv4Fields_loop [] prev val digLen flds =
     (if length flds < 3 then None else Some (flds @ [of_nat val]))"
| "parseIPv4Fields_loop (c # cs) prev val digLen flds =
     (if isDigit c then
        (if digLen = 1 \<and> val = 0 then None
         else if 255 < val * 10 + digitVal c then None
         else parseIPv4Fields_loop cs (Some c) (val * 10 + digitVal c) (digLen + 1) flds)
      else if c = CHR ''.'' then
        (if prev = None \<or> cs = [] \<or> prev = Some (CHR ''.'') then None
         else if length flds = 3 then None
         else parseIPv4Fields_loop cs (Some c) 0 0 (flds @ [of_nat val]))
      else None)"

definition parseIPv4Fields :: "string \<Rightarrow> byte list option" where
  "parseIPv4Fields s = parseIPv4Fields_loop s None 0 0 []"

text \<open>
  A \<open>netip.Addr\<close> is an IPv4 address of four bytes, or an IPv6 address of sixteen
  bytes with its zone.
\<close>

datatype netip_Addr = Addr4 "byte list" | Addr6 "byte list" string

definition isHex :: "char \<Rightarrow> bool" where
  "isHex c \<longleftrightarrow> isDigit c
     \<or> ((97::nat) \<le> of_char c \<and> of_char c \<le> (102::nat))
     \<or> ((65::nat) \<le> of_char c \<and> of_char c \<le> (70::nat))"

definition hexVal :: "char \<Rightarrow> nat" where
  "hexVal c =
    (if isDigit c then of_char c - 48
     else if (97::nat) \<le> of_char c then of_char c - 97 + 10
     else of_char c - 65 + 10)"

text \<open>
  The inner loop of \<open>parseIPv6\<close>: the hexadecimal digits of one group. It gives the
  number of digits and their value, or fails at a fifth digit.
\<close>

fun hex_loop :: "string \<Rightarrow> nat \<Rightarrow> nat \<Rightarrow> (nat \<times> nat) option" where
  "hex_loop [] off acc = Some (off, acc)"
| "hex_loop (c # cs) off acc =
     (if isHex c then
        (if 3 < off then None
         else if 0xFFFF < acc * 16 + hexVal c then None
         else hex_loop cs (off + 1) (acc * 16 + hexVal c))
      else Some (off, acc))"

text \<open>
  The outer loop of \<open>parseIPv6\<close>, \<open>for i < 16\<close>: groups of hexadecimal digits separated
  by colons, at most one \<open>::\<close> (its position is \<open>ellipsis\<close>, \<open>None\<close> for \<open>-1\<close>), and
  possibly an IPv4 address in dotted form at the end. It gives the rest of the
  string, \<open>i\<close>, the bytes and the ellipsis.
\<close>

function parseIPv6_loop ::
  "string \<Rightarrow> nat \<Rightarrow> byte list \<Rightarrow> nat option \<Rightarrow> (string \<times> nat \<times> byte list \<times> nat option) option" where
  "parseIPv6_loop s i ip ellipsis =
    (if \<not> i < 16 then Some (s, i, ip, ellipsis)
     else
       (case hex_loop s 0 0 of
         None \<Rightarrow> None
       | Some (off, acc) \<Rightarrow>
           if off = 0 then None
           else if off < length s \<and> s ! off = CHR ''.'' then
             (if ellipsis = None \<and> i \<noteq> 12 then None
              else if 16 < i + 4 then None
              else
                (case parseIPv4Fields s of
                  None \<Rightarrow> None
                | Some f \<Rightarrow> Some ([], i + 4, take i ip @ f @ drop (i + 4) ip, ellipsis)))
           else
             (let ip' = ip[i := of_nat (acc div 256), i + 1 := of_nat acc];
                  s' = drop off s
              in
                if s' = [] then Some (s', i + 2, ip', ellipsis)
                else if hd s' \<noteq> CHR '':'' then None
                else if length s' = 1 then None
                else if hd (tl s') = CHR '':'' then
                  (if ellipsis \<noteq> None then None
                   else if tl (tl s') = [] then Some ([], i + 2, ip', Some (i + 2))
                   else parseIPv6_loop (tl (tl s')) (i + 2) ip' (Some (i + 2)))
                else parseIPv6_loop (tl s') (i + 2) ip' ellipsis)))"
  by pat_completeness auto
termination
  by (relation "measure (\<lambda>(s, i, ip, ellipsis). 16 - i)") auto

declare parseIPv6_loop.simps [simp del]

definition IndexByteString :: "string \<Rightarrow> char \<Rightarrow> int" where
  "IndexByteString s c =
    (if c \<in> set s then int (length (takeWhile (\<lambda>x. x \<noteq> c) s)) else - 1)"

definition parseIPv6 :: "string \<Rightarrow> netip_Addr option" where
  "parseIPv6 in0 =
    (let i = IndexByteString in0 (CHR ''%'');
         s0 = (if i \<noteq> - 1 then take (nat i) in0 else in0);
         zone = (if i \<noteq> - 1 then drop (nat i + 1) in0 else [])
     in
       if i \<noteq> - 1 \<and> zone = [] then None
       else
         let lead = (2 \<le> length s0 \<and> s0 ! 0 = CHR '':'' \<and> s0 ! 1 = CHR '':'');
             s = (if lead then drop 2 s0 else s0);
             ellipsis = (if lead then Some 0 else None)
         in
           if lead \<and> s = [] then Some (Addr6 (replicate 16 0) zone)
           else
             (case parseIPv6_loop s 0 (replicate 16 0) ellipsis of
               None \<Rightarrow> None
             | Some (rest, j, ip, ell) \<Rightarrow>
                 if rest \<noteq> [] then None
                 else if j < 16 then
                   (case ell of
                     None \<Rightarrow> None
                   | Some e \<Rightarrow>
                       Some (Addr6 (take e ip @ replicate (16 - j) 0 @ take (j - e) (drop e ip)) zone))
                 else if ell \<noteq> None then None
                 else Some (Addr6 ip zone)))"

definition parseIPv4 :: "string \<Rightarrow> netip_Addr option" where
  "parseIPv4 s = (case parseIPv4Fields s of None \<Rightarrow> None | Some f \<Rightarrow> Some (Addr4 f))"

text \<open>
  \<open>netip.ParseAddr\<close>: the first dot, colon or percent sign of the string decides
  between the IPv4 parser, the IPv6 parser and an error.
\<close>

fun ParseAddr_scan :: "string \<Rightarrow> string \<Rightarrow> netip_Addr option" where
  "ParseAddr_scan s [] = None"
| "ParseAddr_scan s (c # cs) =
     (if c = CHR ''.'' then parseIPv4 s
      else if c = CHR '':'' then parseIPv6 s
      else if c = CHR ''%'' then None
      else ParseAddr_scan s cs)"

definition ParseAddr :: "string \<Rightarrow> netip_Addr option" where
  "ParseAddr s = ParseAddr_scan s s"

definition Zone :: "netip_Addr \<Rightarrow> string" where
  "Zone a = (case a of Addr4 b \<Rightarrow> [] | Addr6 b z \<Rightarrow> z)"

definition BitLen :: "netip_Addr \<Rightarrow> int" where
  "BitLen a = (case a of Addr4 b \<Rightarrow> 32 | Addr6 b z \<Rightarrow> 128)"

definition As16 :: "netip_Addr \<Rightarrow> byte list" where
  "As16 a = (case a of Addr4 b \<Rightarrow> v4InV6Prefix @ b | Addr6 b z \<Rightarrow> b)"

text \<open>
  \<open>net.ParseCIDR\<close>: the address and the network of \<open>"192.0.2.1/24"\<close> or
  \<open>"2001:db8::/32"\<close>; the network's address is the address with the mask applied.
\<close>

definition ParseCIDR :: "string \<Rightarrow> error + (IP \<times> IPNet)" where
  "ParseCIDR s =
    (let i = IndexByteString s (CHR ''/'') in
     if i < 0 then Inl (ParseError ''CIDR address'' s)
     else
       let addr = take (nat i) s; mask = drop (nat i + 1) s in
       (case ParseAddr addr of
         None \<Rightarrow> Inl (ParseError ''CIDR address'' s)
       | Some ipAddr \<Rightarrow>
           if Zone ipAddr \<noteq> [] then Inl (ParseError ''CIDR address'' s)
           else
             (case dtoi mask of
               (n, j, ok) \<Rightarrow>
                 if \<not> ok \<or> j \<noteq> length mask \<or> BitLen ipAddr < int n
                 then Inl (ParseError ''CIDR address'' s)
                 else
                   let m = CIDRMask (int n) (BitLen ipAddr) in
                   Inr (As16 ipAddr, \<lparr>IP = IP_Mask (As16 ipAddr) m, Mask = m\<rparr>))))"

subsection \<open>Formatting\<close>

text \<open>
  The decimal form of a number, as \<open>%d\<close> and \<open>netip.Addr.String\<close> print it: no leading
  zero, a minus sign for a negative number.
\<close>

function decimal :: "nat \<Rightarrow> string" where
  "decimal n =
    (if n < 10 then [char_of (48 + n)]
     else decimal (n div 10) @ [char_of (48 + n mod 10)])"
  by pat_completeness auto
termination
  by (relation "measure id") auto

declare decimal.simps [simp del]

definition Itoa :: "int \<Rightarrow> string" where
  "Itoa i = (if i < 0 then CHR ''-'' # decimal (nat (- i)) else decimal (nat i))"

text \<open>
  \<open>IP.String\<close> for an address whose \<open>To4()\<close> is not \<open>nil\<close>: the dotted decimal form of
  the four bytes of \<open>To4()\<close>. These are the only addresses \<open>main\<close> formats; the text
  forms of the other addresses are not modelled.
\<close>

fun dotted :: "byte list \<Rightarrow> string" where
  "dotted [] = []"
| "dotted [b] = decimal (unat b)"
| "dotted (b # bs) = decimal (unat b) @ ''.'' @ dotted bs"

definition IP_String :: "IP \<Rightarrow> string" where
  "IP_String ip = dotted (To4 ip)"

section \<open>The program's effects\<close>

text \<open>
  What a run does to the outside is a list of events, in order: a line written by
  \<open>log.Printf\<close> or \<open>log.Println\<close> (the formatted message), the call
  \<open>qrterminal.GenerateWithConfig(link, config)\<close> (the configuration is the same constant
  in every call), \<open>log.Fatal(err)\<close> (which prints the error and calls \<open>os.Exit(1)\<close>), a
  panic, and the start of the HTTP server on an address. \<open>net.InterfaceAddrs\<close> returns
  values of the interface \<open>net.Addr\<close>: an \<open>*net.IPNet\<close>, or another implementation.
\<close>

datatype Addr = Addr_IPNet IPNet | Addr_other string

datatype panic_value = Errorf string string error

datatype event =
    Log_Printf string
  | GenerateWithConfig string
  | Log_Fatal error
  | Exit int
  | Panic panic_value
  | ListenAndServe string
  | Log_Printf_Duration string int
  | AfterFunc int
  | signal_Notify
  | go_ListenAndServe string

text \<open>
  The local variables of \<open>main\<close> that its loop over the addresses changes, and the
  events so far.
\<close>

record main_state =
  qrGenerated :: bool
  fallbackIP :: IP
  fallbackLink :: string
  events :: "event list"

section \<open>src/cmd/webshare/main.go\<close>

subsection \<open>The prefix matcher\<close>

text \<open>
  \<^verbatim>\<open>
  func parsePrefixes(input string) []string {
      parts := strings.Fields(strings.ReplaceAll(input, ",", " "))
      return parts
  }
  \<close>
\<close>

definition parsePrefixes :: "string \<Rightarrow> string list" where
  "parsePrefixes input = Fields (ReplaceAll input '','' '' '')"

subsection \<open>The private-range classifier\<close>

text \<open>
  \<open>setupPrivateIPBlocks\<close> appends the parsed networks to the package variable
  \<open>privateIPBlocks\<close>, here an argument and the result; a panic is the result \<open>Inl\<close>.
  \<open>init\<close> calls it on the variable's initial value \<open>nil\<close>, before \<open>main\<close> runs.
\<close>

fun setupPrivateIPBlocks_loop :: "string list \<Rightarrow> IPNet list \<Rightarrow> panic_value + IPNet list" where
  "setupPrivateIPBlocks_loop [] privateIPBlocks = Inr privateIPBlocks"
| "setupPrivateIPBlocks_loop (cidr # rest) privateIPBlocks =
     (case ParseCIDR cidr of
       Inl err \<Rightarrow> Inl (Errorf ''parse error on %q: %v'' cidr err)
     | Inr (ip, block) \<Rightarrow> setupPrivateIPBlocks_loop rest (privateIPBlocks @ [block]))"

definition setupPrivateIPBlocks :: "IPNet list \<Rightarrow> panic_value + IPNet list" where
  "setupPrivateIPBlocks privateIPBlocks =
     setupPrivateIPBlocks_loop
       [''127.0.0.0/8'', ''10.0.0.0/8'', ''172.16.0.0/12'', ''192.168.0.0/16'',
        ''169.254.0.0/16'', ''::1/128'', ''fe80::/10'', ''fc00::/7'']
       privateIPBlocks"

definition init :: "panic_value + IPNet list" where
  "init = setupPrivateIPBlocks []"

fun isPrivateIP_loop :: "IPNet list \<Rightarrow> IP \<Rightarrow> bool" where
  "isPrivateIP_loop [] ip = False"
| "isPrivateIP_loop (block # rest) ip =
     (if Contains block ip then True else isPrivateIP_loop rest ip)"

definition isPrivateIP :: "IPNet list \<Rightarrow> IP \<Rightarrow> bool" where
  "isPrivateIP privateIPBlocks ip =
    (if IsLoopback ip \<or> IsLinkLocalUnicast ip \<or> IsLinkLocalMulticast ip then True
     else isPrivateIP_loop privateIPBlocks ip)"

subsection \<open>The address selector\<close>

text \<open>
  The loop over the prefixes, for one address: the first prefix of the address's text
  generates the QR code, sets \<open>qrGenerated\<close> and leaves the loop (\<open>break\<close>).
\<close>

fun main_prefixes_loop :: "string \<Rightarrow> string \<Rightarrow> string list \<Rightarrow> main_state \<Rightarrow> main_state" where
  "main_prefixes_loop ipString link [] st = st"
| "main_prefixes_loop ipString link (pre # rest) st =
     (if HasPrefix ipString pre
      then st\<lparr>events := events st @ [GenerateWithConfig link], qrGenerated := True\<rparr>
      else main_prefixes_loop ipString link rest st)"

text \<open>
  The body of the loop over the addresses: an address that is an \<open>*net.IPNet\<close> with
  \<open>To4() != nil\<close> is logged with its mark and its link
  \<open>fmt.Sprintf("http://%s:%d", ipnet.IP.String(), *port)\<close>, matched against the
  prefixes, and kept as the fallback when it is public and no fallback is kept yet.
\<close>

definition main_addr_body :: "IPNet list \<Rightarrow> int \<Rightarrow> string list \<Rightarrow> Addr \<Rightarrow> main_state \<Rightarrow> main_state" where
  "main_addr_body privateIPBlocks port prefixes addr st =
    (case addr of
      Addr_IPNet ipnet \<Rightarrow>
        if To4 (IP ipnet) \<noteq> [] then
          let mark = (if isPrivateIP privateIPBlocks (IP ipnet) then ''private'' else ''public'');
              link = ''http://'' @ IP_String (IP ipnet) @ '':'' @ Itoa port;
              st1 = st\<lparr>events := events st @ [Log_Printf (link @ '' ['' @ mark @ '']'')]\<rparr>;
              st2 = main_prefixes_loop (IP_String (IP ipnet)) link prefixes st1
          in
            if \<not> isPrivateIP privateIPBlocks (IP ipnet) \<and> fallbackIP st2 = []
            then st2\<lparr>fallbackIP := IP ipnet, fallbackLink := link\<rparr>
            else st2
        else st
    | Addr_other a \<Rightarrow> st)"

fun main_addrs_loop :: "IPNet list \<Rightarrow> int \<Rightarrow> string list \<Rightarrow> Addr list \<Rightarrow> main_state \<Rightarrow> main_state" where
  "main_addrs_loop privateIPBlocks port prefixes [] st = st"
| "main_addrs_loop privateIPBlocks port prefixes (addr # addrs) st =
     main_addrs_loop privateIPBlocks port prefixes addrs
       (main_addr_body privateIPBlocks port prefixes addr st)"

text \<open>
  The selection of \<open>main\<close>, from \<open>parsePrefixes(*qrPrefix)\<close> to the fallback after the
  loop: its events.
\<close>

definition main_selection :: "IPNet list \<Rightarrow> int \<Rightarrow> string \<Rightarrow> Addr list \<Rightarrow> event list" where
  "main_selection privateIPBlocks port qrPrefix addrs =
    (let prefixes = parsePrefixes qrPrefix;
         st = main_addrs_loop privateIPBlocks port prefixes addrs
                \<lparr>qrGenerated = False, fallbackIP = [], fallbackLink = [], events = []\<rparr>
     in
       if \<not> qrGenerated st \<and> fallbackIP st \<noteq> []
       then events st @ [GenerateWithConfig (fallbackLink st)]
       else events st)"

text \<open>
  \<open>main\<close>, given the values of the flags \<open>-p\<close> and \<open>-q\<close> and what \<open>net.InterfaceAddrs()\<close>
  returns. The events end with the call of \<open>http.ListenAndServe\<close>, which serves until
  it fails.
\<close>

definition main :: "IPNet list \<Rightarrow> int \<Rightarrow> string \<Rightarrow> error + Addr list \<Rightarrow> event list" where
  "main privateIPBlocks port qrPrefix interfaceAddrs =
    (case interfaceAddrs of
      Inl err \<Rightarrow> [Log_Fatal err, Exit 1]
    | Inr addrs \<Rightarrow>
        main_selection privateIPBlocks port qrPrefix addrs
          @ [ListenAndServe ('':'' @ Itoa port)])"

text \<open>A run of the program: \<open>init\<close>, then \<open>main\<close>.\<close>

definition program :: "int \<Rightarrow> string \<Rightarrow> error + Addr list \<Rightarrow> event list" where
  "program port qrPrefix interfaceAddrs =
    (case init of
      Inl p \<Rightarrow> [Panic p]
    | Inr privateIPBlocks \<Rightarrow> main privateIPBlocks port qrPrefix interfaceAddrs)"

section \<open>src/unnamed/part_000\<close>

subsection \<open>The prefix matcher\<close>

text \<open>
  \<^verbatim>\<open>
  func parsePrefixes(input string) []string {
      parts := strings.Fields(strings.ReplaceAll(input, ",", " "))
      return parts
  }
  \<close>
\<close>

definition parsePrefixes_part000 :: "string \<Rightarrow> string list" where
  "parsePrefixes_part000 input = Fields (ReplaceAll input '','' '' '')"

subsection \<open>The private-range classifier\<close>

text \<open>
  \<open>setupPrivateIPBlocks\<close> appends the parsed networks to the package variable
  \<open>privateIPBlocks\<close>, here an argument and the result; a panic is the result \<open>Inl\<close>.
  \<open>init\<close> calls it on the variable's initial value \<open>nil\<close>, before \<open>main\<close> runs.
\<close>

fun setupPrivateIPBlocks_loop_part000 :: "string list \<Rightarrow> IPNet list \<Rightarrow> panic_value + IPNet list" where
  "setupPrivateIPBlocks_loop_part000 [] privateIPBlocks = Inr privateIPBlocks"
| "setupPrivateIPBlocks_loop_part000 (cidr # rest) privateIPBlocks =
     (case ParseCIDR cidr of
       Inl err \<Rightarrow> Inl (Errorf ''parse error on %q: %v'' cidr err)
     | Inr (ip, block) \<Rightarrow> setupPrivateIPBlocks_loop_part000 rest (privateIPBlocks @ [block]))"

definition setupPrivateIPBlocks_part000 :: "IPNet list \<Rightarrow> panic_value + IPNet list" where
  "setupPrivateIPBlocks_part000 privateIPBlocks =
     setupPrivateIPBlocks_loop_part000
       [''127.0.0.0/8'', ''10.0.0.0/8'', ''172.16.0.0/12'', ''192.168.0.0/16'',
        ''169.254.0.0/16'', ''::1/128'', ''fe80::/10'', ''fc00::/7'']
       privateIPBlocks"

definition init_part000 :: "panic_value + IPNet list" where
  "init_part000 = setupPrivateIPBlocks_part000 []"

fun isPrivateIP_loop_part000 :: "IPNet list \<Rightarrow> IP \<Rightarrow> bool" where
  "isPrivateIP_loop_part000 [] ip = False"
| "isPrivateIP_loop_part000 (block # rest) ip =
     (if Contains block ip then True else isPrivateIP_loop_part000 rest ip)"

definition isPrivateIP_part000 :: "IPNet list \<Rightarrow> IP \<Rightarrow> bool" where
  "isPrivateIP_part000 privateIPBlocks ip =
    (if IsLoopback ip \<or> IsLinkLocalUnicast ip \<or> IsLinkLocalMulticast ip then True
     else isPrivateIP_loop_part000 privateIPBlocks ip)"

subsection \<open>The address selector\<close>

text \<open>
  The loop over the prefixes, for one address: the first prefix of the address's text
  generates the QR code, sets \<open>qrGenerated\<close> and leaves the loop (\<open>break\<close>).
\<close>

fun main_prefixes_loop_part000 :: "string \<Rightarrow> string \<Rightarrow> string list \<Rightarrow> main_state \<Rightarrow> main_state" where
  "main_prefixes_loop_part000 ipString link [] st = st"
| "main_prefixes_loop_part000 ipString link (pre # rest) st =
     (if HasPrefix ipString pre
      then st\<lparr>events := events st @ [GenerateWithConfig link], qrGenerated := True\<rparr>
      else main_prefixes_loop_part000 ipString link rest st)"

text \<open>
  The body of the loop over the addresses: an address that is an \<open>*net.IPNet\<close> with
  \<open>To4() != nil\<close> is logged with its mark and its link
  \<open>fmt.Sprintf("http://%s:%d", ipnet.IP.String(), *port)\<close>, matched against the
  prefixes, and kept as the fallback when it is public and no fallback is kept yet.
\<close>

definition main_addr_body_part000 :: "IPNet list \<Rightarrow> int \<Rightarrow> string list \<Rightarrow> Addr \<Rightarrow> main_state \<Rightarrow> main_state" where
  "main_addr_body_part000 privateIPBlocks port prefixes addr st =
    (case addr of
      Addr_IPNet ipnet \<Rightarrow>
        if To4 (IP ipnet) \<noteq> [] then
          let mark = (if isPrivateIP_part000 privateIPBlocks (IP ipnet) then ''private'' else ''public'');
              link = ''http://'' @ IP_String (IP ipnet) @ '':'' @ Itoa port;
              st1 = st\<lparr>events := events st @ [Log_Printf (link @ '' ['' @ mark @ '']'')]\<rparr>;
              st2 = main_prefixes_loop_part000 (IP_String (IP ipnet)) link prefixes st1
          in
            if \<not> isPrivateIP_part000 privateIPBlocks (IP ipnet) \<and> fallbackIP st2 = []
            then st2\<lparr>fallbackIP := IP ipnet, fallbackLink := link\<rparr>
            else st2
        else st
    | Addr_other a \<Rightarrow> st)"

fun main_addrs_loop_part000 :: "IPNet list \<Rightarrow> int \<Rightarrow> string list \<Rightarrow> Addr list \<Rightarrow> main_state \<Rightarrow> main_state" where
  "main_addrs_loop_part000 privateIPBlocks port prefixes [] st = st"
| "main_addrs_loop_part000 privateIPBlocks port prefixes (addr # addrs) st =
     main_addrs_loop_part000 privateIPBlocks port prefixes addrs
       (main_addr_body_part000 privateIPBlocks port prefixes addr st)"

text \<open>
  The selection of \<open>main\<close>, from \<open>parsePrefixes(*qrPrefix)\<close> to the fallback after the
  loop: its events.
\<close>

definition main_selection_part000 :: "IPNet list \<Rightarrow> int \<Rightarrow> string \<Rightarrow> Addr list \<Rightarrow> event list" where
  "main_selection_part000 privateIPBlocks port qrPrefix addrs =
    (let prefixes = parsePrefixes_part000 qrPrefix;
         st = main_addrs_loop_part000 privateIPBlocks port prefixes addrs
                \<lparr>qrGenerated = False, fallbackIP = [], fallbackLink = [], events = []\<rparr>
     in
       if \<not> qrGenerated st \<and> fallbackIP st \<noteq> []
       then events st @ [GenerateWithConfig (fallbackLink st)]
       else events st)"

text \<open>
  \<open>main\<close>, given the values of the flags \<open>-p\<close>, \<open>-q\<close> and \<open>-t\<close> (a duration, in
  nanoseconds) and what \<open>net.InterfaceAddrs()\<close> returns. After the selection it arms the
  timer when the timeout is positive, subscribes to the interrupt signals and starts
  the server in a goroutine; the events end where \<open>main\<close> waits for \<open>ctx.Done()\<close>.
  What happens from there on is the lifecycle, below.
\<close>

definition main_part000 ::
  "IPNet list \<Rightarrow> int \<Rightarrow> string \<Rightarrow> int \<Rightarrow> error + Addr list \<Rightarrow> event list" where
  "main_part000 privateIPBlocks port qrPrefix timeout interfaceAddrs =
    (case interfaceAddrs of
      Inl err \<Rightarrow> [Log_Fatal err, Exit 1]
    | Inr addrs \<Rightarrow>
        main_selection_part000 privateIPBlocks port qrPrefix addrs
          @ (if 0 < timeout
             then [Log_Printf_Duration ''Server will shut down after %v'' timeout, AfterFunc timeout]
             else [])
          @ [signal_Notify, go_ListenAndServe ('':'' @ Itoa port)])"

definition program_part000 :: "int \<Rightarrow> string \<Rightarrow> int \<Rightarrow> error + Addr list \<Rightarrow> event list" where
  "program_part000 port qrPrefix timeout interfaceAddrs =
    (case init_part000 of
      Inl p \<Rightarrow> [Panic p]
    | Inr privateIPBlocks \<Rightarrow> main_part000 privateIPBlocks port qrPrefix timeout interfaceAddrs)"

subsection \<open>The lifecycle\<close>

text \<open>
  The end of \<open>main\<close>, from the creation of the context:
  \<^verbatim>\<open>
  ctx, cancel := context.WithCancel(context.Background())
  defer cancel()
  if *timeout > 0 {
      log.Printf("Server will shut down after %v", *timeout)
      time.AfterFunc(*timeout, func() {
          cancel()
      })
  }
  sigChan := make(chan os.Signal, 1)
  signal.Notify(sigChan, syscall.SIGINT, syscall.SIGTERM)
  go func() {
      <-sigChan
      log.Println("Received interrupt signal, shutting down...")
      cancel()
  }()
  go func() { ... srv.ListenAndServe() ... }()
  <-ctx.Done()
  shutdownCtx, cancel := context.WithTimeout(context.Background(), 5*time.Second)
  defer cancel()
  if err := srv.Shutdown(shutdownCtx); err != nil {
      log.Printf("Server forced to shutdown: %v", err)
  } else {
      log.Println("Server gracefully stopped")
  }
  \<close>
  The function of the timer, the goroutine of the signal and \<open>main\<close> run concurrently.
  Each is a function on the state they share, and a run is given by the order in which
  things occur: the timer fires, a signal arrives, the goroutine of the signal runs,
  \<open>main\<close> runs, the open connections finish, the five seconds of the grace period elapse.

  The variable \<open>cancel\<close> is declared with \<open>ctx\<close>. The statement
  \<open>shutdownCtx, cancel := context.WithTimeout(...)\<close> stands in the same block, so it
  declares \<open>shutdownCtx\<close> only and assigns \<open>cancel\<close>. The function of the timer and the
  goroutine of the signal refer to the variable: they call the function it holds when
  they run. The variable holds the cancel function of \<open>ctx\<close> or that of \<open>shutdownCtx\<close>.
\<close>

datatype cancel_func = cancel_of_ctx | cancel_of_shutdownCtx

text \<open>The error of a cancelled context, \<open>ctx.Err()\<close>.\<close>

datatype context_error = Canceled | DeadlineExceeded

text \<open>
  The session is serving while \<open>main\<close> waits for \<open>ctx.Done()\<close>, stopping while \<open>main\<close> is
  in \<open>srv.Shutdown\<close>, and stopped when \<open>main\<close> has returned.
\<close>

datatype session = Serving | Stopping | Stopped

datatype lifecycle_log =
    Log_Received_interrupt
  | Log_Server_forced_to_shutdown context_error
  | Log_Server_gracefully_stopped

datatype occurrence =
    Timer_fires
  | Signal_arrives
  | Signal_goroutine_runs
  | Main_runs
  | Connections_finish
  | Grace_period_elapses

text \<open>
  The shared state: the variable \<open>cancel\<close>, whether \<open>ctx\<close> is cancelled, the error of
  \<open>shutdownCtx\<close> (\<open>None\<close> while it is not cancelled), whether the timer is armed and has
  not fired, whether the goroutine of the signal still waits for \<open>sigChan\<close>, the number
  of signals in the channel (its capacity is 1), the session, and the lines logged.
\<close>

record lifecycle =
  cancel :: cancel_func
  ctx_done :: bool
  shutdownCtx_err :: "context_error option"
  timer_pending :: bool
  signal_goroutine_waiting :: bool
  sigChan :: nat
  phase :: session
  log_lines :: "lifecycle_log list"

text \<open>
  The call \<open>cancel()\<close>: it cancels the context whose cancel function the variable holds.
  Cancelling a context that is cancelled already does nothing.
\<close>

definition call_cancel :: "lifecycle \<Rightarrow> lifecycle" where
  "call_cancel st =
    (case cancel st of
      cancel_of_ctx \<Rightarrow> st\<lparr>ctx_done := True\<rparr>
    | cancel_of_shutdownCtx \<Rightarrow>
        if shutdownCtx_err st = None then st\<lparr>shutdownCtx_err := Some Canceled\<rparr> else st)"

text \<open>The function given to \<open>time.AfterFunc\<close>, and the goroutine of the signal.\<close>

definition timer_func :: "lifecycle \<Rightarrow> lifecycle" where
  "timer_func st = call_cancel st"

definition signal_goroutine :: "lifecycle \<Rightarrow> lifecycle" where
  "signal_goroutine st =
     call_cancel
       (st\<lparr>sigChan := sigChan st - 1, signal_goroutine_waiting := False,
           log_lines := log_lines st @ [Log_Received_interrupt]\<rparr>)"

text \<open>
  \<open>main\<close> after \<open>ctx.Done()\<close>: it creates \<open>shutdownCtx\<close>, assigns \<open>cancel\<close> and calls
  \<open>srv.Shutdown\<close>; and \<open>main\<close> after \<open>srv.Shutdown\<close> has returned \<open>err\<close>: it logs the
  outcome and returns.
\<close>

definition main_after_Done :: "lifecycle \<Rightarrow> lifecycle" where
  "main_after_Done st = st\<lparr>cancel := cancel_of_shutdownCtx, phase := Stopping\<rparr>"

definition main_after_Shutdown :: "context_error option \<Rightarrow> lifecycle \<Rightarrow> lifecycle" where
  "main_after_Shutdown err st =
     st\<lparr>phase := Stopped,
        log_lines := log_lines st
          @ [case err of
               Some e \<Rightarrow> Log_Server_forced_to_shutdown e
             | None \<Rightarrow> Log_Server_gracefully_stopped]\<rparr>"

text \<open>
  One occurrence. Nothing happens once \<open>main\<close> has returned. The timer fires once, when
  it was armed. \<open>signal.Notify\<close> puts a signal into \<open>sigChan\<close> when there is room and drops
  it otherwise; the goroutine of the signal receives one signal. \<open>main\<close> leaves
  \<open>ctx.Done()\<close> when \<open>ctx\<close> is cancelled, and \<open>srv.Shutdown\<close> returns the error of
  \<open>shutdownCtx\<close> when that is cancelled, or \<open>nil\<close> when the connections have finished.
\<close>

definition lifecycle_step :: "occurrence \<Rightarrow> lifecycle \<Rightarrow> lifecycle" where
  "lifecycle_step occ st =
    (if phase st = Stopped then st
     else
       (case occ of
         Timer_fires \<Rightarrow>
           if timer_pending st then timer_func (st\<lparr>timer_pending := False\<rparr>) else st
       | Signal_arrives \<Rightarrow>
           if sigChan st < 1 then st\<lparr>sigChan := sigChan st + 1\<rparr> else st
       | Signal_goroutine_runs \<Rightarrow>
           if signal_goroutine_waiting st \<and> 0 < sigChan st then signal_goroutine st else st
       | Main_runs \<Rightarrow>
           if phase st = Serving then (if ctx_done st then main_after_Done st else st)
           else
             (case shutdownCtx_err st of
               None \<Rightarrow> st
             | Some e \<Rightarrow> main_after_Shutdown (Some e) st)
       | Connections_finish \<Rightarrow>
           if phase st = Stopping then main_after_Shutdown None st else st
       | Grace_period_elapses \<Rightarrow>
           if phase st = Stopping \<and> shutdownCtx_err st = None
           then st\<lparr>shutdownCtx_err := Some DeadlineExceeded\<rparr>
           else st))"

text \<open>
  The state when \<open>main\<close> reaches \<open>ctx.Done()\<close> (the timer is armed when the timeout is
  positive), and the state after a list of occurrences.
\<close>

definition lifecycle_start :: "int \<Rightarrow> lifecycle" where
  "lifecycle_start timeout =
     \<lparr>cancel = cancel_of_ctx, ctx_done = False, shutdownCtx_err = None,
      timer_pending = (0 < timeout), signal_goroutine_waiting = True, sigChan = 0,
      phase = Serving, log_lines = []\<rparr>"

definition lifecycle_run :: "int \<Rightarrow> occurrence list \<Rightarrow> lifecycle" where
  "lifecycle_run timeout occs = fold lifecycle_step occs (lifecycle_start timeout)"

section \<open>Definitions that follow the specification\<close>

text \<open>
  The prefix matcher as the specification words it: commas are treated as white space,
  the input is split at every white space character (so that two separators in a row
  leave an empty token between them), and the empty tokens are discarded. The
  characters are the runes of the input, each with its bytes.
\<close>

fun split_at :: "('a \<Rightarrow> bool) \<Rightarrow> 'a list \<Rightarrow> 'a list list" where
  "split_at sep [] = [[]]"
| "split_at sep (x # xs) =
     (if sep x then [] # split_at sep xs
      else (x # hd (split_at sep xs)) # tl (split_at sep xs))"

definition parsePrefixes_spec :: "string \<Rightarrow> string list" where
  "parsePrefixes_spec input =
     map (\<lambda>piece. concat (map snd piece))
       (filter (\<lambda>piece. piece \<noteq> [])
         (split_at (\<lambda>(r, bs). r = 0x2C \<or> IsSpace r) (range_string input)))"

text \<open>The replacement of \<open>parsePrefixes\<close>, on one byte and on one rune.\<close>

definition comma_to_space :: "char \<Rightarrow> char" where
  "comma_to_space c = (if c = CHR '','' then CHR '' '' else c)"

definition comma_to_space_rune :: "nat \<Rightarrow> nat" where
  "comma_to_space_rune r = (if r = 0x2C then 0x20 else r)"

text \<open>
  The ranges the classifier must recognise, as the specification names them: a network
  in CIDR notation holds the addresses of its length whose first \<open>n\<close> bits are those of
  its base address. An address is read as a number, most significant byte first.
\<close>

definition ipValue :: "IP \<Rightarrow> nat" where
  "ipValue ip = foldl (\<lambda>v b. v * 256 + unat b) 0 ip"

definition inCIDR :: "IP \<Rightarrow> nat \<Rightarrow> IP \<Rightarrow> bool" where
  "inCIDR base n ip \<longleftrightarrow>
     length ip = length base
     \<and> ipValue ip div 2 ^ (8 * length base - n) = ipValue base div 2 ^ (8 * length base - n)"

definition reservedRanges :: "(IP \<times> nat) list" where
  "reservedRanges =
    [([127, 0, 0, 0], 8),
     ([10, 0, 0, 0], 8),
     ([172, 16, 0, 0], 12),
     ([192, 168, 0, 0], 16),
     ([169, 254, 0, 0], 16),
     ([0, 0, 0, 0, 0, 0, 0, 0, 0, 0, 0, 0, 0, 0, 0, 1], 128),
     ([0xfe, 0x80, 0, 0, 0, 0, 0, 0, 0, 0, 0, 0, 0, 0, 0, 0], 10),
     ([0xfc, 0, 0, 0, 0, 0, 0, 0, 0, 0, 0, 0, 0, 0, 0, 0], 7)]"

definition inReservedRange :: "IP \<Rightarrow> bool" where
  "inReservedRange ip \<longleftrightarrow> list_ex (\<lambda>(base, n). inCIDR base n ip) reservedRanges"

text \<open>The eight networks of the table, parsed.\<close>

definition builtinBlocks :: "IPNet list" where
  "builtinBlocks =
    [\<lparr>IP = [127, 0, 0, 0], Mask = [255, 0, 0, 0]\<rparr>,
     \<lparr>IP = [10, 0, 0, 0], Mask = [255, 0, 0, 0]\<rparr>,
     \<lparr>IP = [172, 16, 0, 0], Mask = [255, 240, 0, 0]\<rparr>,
     \<lparr>IP = [192, 168, 0, 0], Mask = [255, 255, 0, 0]\<rparr>,
     \<lparr>IP = [169, 254, 0, 0], Mask = [255, 255, 0, 0]\<rparr>,
     \<lparr>IP = [0, 0, 0, 0, 0, 0, 0, 0, 0, 0, 0, 0, 0, 0, 0, 1],
       Mask = [255, 255, 255, 255, 255, 255, 255, 255, 255, 255, 255, 255, 255, 255, 255, 255]\<rparr>,
     \<lparr>IP = [254, 128, 0, 0, 0, 0, 0, 0, 0, 0, 0, 0, 0, 0, 0, 0],
       Mask = [255, 192, 0, 0, 0, 0, 0, 0, 0, 0, 0, 0, 0, 0, 0, 0]\<rparr>,
     \<lparr>IP = [252, 0, 0, 0, 0, 0, 0, 0, 0, 0, 0, 0, 0, 0, 0, 0],
       Mask = [254, 0, 0, 0, 0, 0, 0, 0, 0, 0, 0, 0, 0, 0, 0, 0]\<rparr>]"

text \<open>
  The selector as the specification words it. The candidates are the IPv4 addresses
  among the enumerated addresses, in order; the URL of a candidate is
  \<open>http://<address>:<port>\<close>; a candidate matches when some pattern is a string prefix
  of its textual form; the Presentation Sink is invoked by \<open>GenerateWithConfig\<close>.
\<close>

fun candidates :: "Addr list \<Rightarrow> IP list" where
  "candidates [] = []"
| "candidates (Addr_IPNet ipnet # addrs) =
     (if To4 (IP ipnet) \<noteq> [] then IP ipnet # candidates addrs else candidates addrs)"
| "candidates (Addr_other a # addrs) = candidates addrs"

definition link_of :: "int \<Rightarrow> IP \<Rightarrow> string" where
  "link_of port ip = ''http://'' @ IP_String ip @ '':'' @ Itoa port"

definition matches :: "string list \<Rightarrow> IP \<Rightarrow> bool" where
  "matches prefixes ip \<longleftrightarrow> list_ex (\<lambda>pre. HasPrefix (IP_String ip) pre) prefixes"

fun sinkCalls :: "event list \<Rightarrow> string list" where
  "sinkCalls [] = []"
| "sinkCalls (GenerateWithConfig link # evs) = link # sinkCalls evs"
| "sinkCalls (ev # evs) = sinkCalls evs"

text \<open>
  What the selector does for one candidate: one log line with the URL and the mark, and
  the QR code when the candidate matches. The fallback is the first public candidate.
\<close>

definition log_line :: "IPNet list \<Rightarrow> int \<Rightarrow> IP \<Rightarrow> event" where
  "log_line privateIPBlocks port ip =
     Log_Printf (link_of port ip @ '' [''
        @ (if isPrivateIP privateIPBlocks ip then ''private'' else ''public'') @ '']'')"

definition candidate_events :: "IPNet list \<Rightarrow> int \<Rightarrow> string list \<Rightarrow> IP \<Rightarrow> event list" where
  "candidate_events privateIPBlocks port prefixes ip =
     log_line privateIPBlocks port ip
       # (if matches prefixes ip then [GenerateWithConfig (link_of port ip)] else [])"

definition first_public :: "IPNet list \<Rightarrow> IP list \<Rightarrow> IP option" where
  "first_public privateIPBlocks ips = find (\<lambda>ip. \<not> isPrivateIP privateIPBlocks ip) ips"

text \<open>The events of the selection: the log lines of the addresses and the QR codes.\<close>

fun selection_event :: "event \<Rightarrow> bool" where
  "selection_event (Log_Printf line) = True"
| "selection_event (GenerateWithConfig link) = True"
| "selection_event ev = False"

section \<open>Properties of the string functions\<close>

lemma range_string_Nil: "range_string [] = []"
  by (simp add: range_string.simps)

lemma DecodeRuneInString_ascii:
  "of_char c < (0x80::nat) \<Longrightarrow> DecodeRuneInString (c # s) = (of_char c, 1)"
  by (simp add: DecodeRuneInString_def)

lemma range_string_ascii:
  "of_char c < (0x80::nat) \<Longrightarrow> range_string (c # s) = (of_char c, [c]) # range_string s"
  by (subst range_string.simps) (simp add: DecodeRuneInString_ascii)

lemma ReplaceAll_byte:
  "ReplaceAll s [a] [b] = map (\<lambda>c. if c = a then b else c) s"
proof (induction s)
  case Nil
  show ?case by (simp add: ReplaceAll_def ReplaceAll_nonempty.simps)
next
  case (Cons c s)
  then show ?case
    by (auto simp add: ReplaceAll_def ReplaceAll_nonempty.simps [of "c # s"] HasPrefix_def)
qed

lemma of_char_comma_to_space:
  "(of_char (comma_to_space c) :: nat) = comma_to_space_rune (of_char c)"
proof -
  have "(of_char (CHR '','') :: nat) = 0x2C" by simp
  then have "(of_char c = (0x2C::nat)) = (c = CHR '','')"
    using of_char_eq_iff [of c "CHR '',''", where ?'a = nat] by simp
  then show ?thesis by (simp add: comma_to_space_def comma_to_space_rune_def)
qed

lemma accepted_comma_to_space:
  "0x80 \<le> fst rng \<Longrightarrow> accepted rng (comma_to_space_rune b) = accepted rng b"
  by (auto simp: accepted_def comma_to_space_rune_def)

lemma accepted_comma_to_space_id:
  "0x80 \<le> fst rng \<Longrightarrow> accepted rng b \<Longrightarrow> comma_to_space_rune b = b"
  by (auto simp: accepted_def comma_to_space_rune_def)

lemma acceptRanges_lo: "0x80 \<le> fst (acceptRanges s0)"
  by (simp add: acceptRanges_def)

lemma locb_lo: "0x80 \<le> fst locb_hicb"
  by (simp add: locb_hicb_def)

lemmas accepted_unchanged =
  accepted_comma_to_space [OF acceptRanges_lo] accepted_comma_to_space [OF locb_lo]
  accepted_comma_to_space_id [OF acceptRanges_lo] accepted_comma_to_space_id [OF locb_lo]

lemma decode2_comma_to_space: "decode2 s0 (map comma_to_space_rune t) = decode2 s0 t"
  by (cases t) (auto simp: accepted_unchanged)

lemma decode3_comma_to_space: "decode3 s0 (map comma_to_space_rune t) = decode3 s0 t"
  by (cases "(s0, t)" rule: decode3.cases) (auto simp: accepted_unchanged)

lemma decode4_comma_to_space: "decode4 s0 (map comma_to_space_rune t) = decode4 s0 t"
  by (cases "(s0, t)" rule: decode4.cases) (auto simp: accepted_unchanged)

lemma mod_window: "(b::nat) = r + k * m \<Longrightarrow> r < m \<Longrightarrow> b mod m = r"
  by simp

text \<open>A rune decoded from more than one byte is not an ASCII character.\<close>

lemma decode2_ge: "0xC2 \<le> s0 \<Longrightarrow> s0 < 0xE0 \<Longrightarrow> 0x80 \<le> fst (decode2 s0 t)"
proof (cases t)
  case Nil
  then show ?thesis by (simp add: RuneError_def)
next
  case (Cons s1 t')
  assume "0xC2 \<le> s0" "s0 < 0xE0"
  then have "2 \<le> s0 mod 32" using mod_window [of s0 "s0 - 192" 6 32] by simp
  then have "0x80 \<le> (s0 mod 32) * 64 + s1 mod 64" by simp
  with Cons show ?thesis by (simp add: RuneError_def)
qed

lemma decode3_ge: "0xE0 \<le> s0 \<Longrightarrow> s0 < 0xF0 \<Longrightarrow> 0x80 \<le> fst (decode3 s0 t)"
proof (cases "(s0, t)" rule: decode3.cases)
  case (1 s0' s1 s2 t')
  assume r: "0xE0 \<le> s0" "s0 < 0xF0"
  have "0x80 \<le> (s0 mod 16) * 4096 + (s1 mod 64) * 64 + s2 mod 64"
    if a: "accepted (acceptRanges s0) s1"
  proof (cases "s0 = 0xE0")
    case True
    with a have "0xA0 \<le> s1" "s1 \<le> 0xBF" by (simp_all add: accepted_def acceptRanges_def)
    then have "32 \<le> s1 mod 64" using mod_window [of s1 "s1 - 128" 2 64] by simp
    then show ?thesis by simp
  next
    case False
    with r have "1 \<le> s0 mod 16" using mod_window [of s0 "s0 - 224" 14 16] by simp
    then show ?thesis by simp
  qed
  with 1 show ?thesis by (simp add: RuneError_def)
qed (simp_all add: RuneError_def)

lemma decode4_ge: "0xF0 \<le> s0 \<Longrightarrow> s0 \<le> 0xF4 \<Longrightarrow> 0x80 \<le> fst (decode4 s0 t)"
proof (cases "(s0, t)" rule: decode4.cases)
  case (1 s0' s1 s2 s3 t')
  assume r: "0xF0 \<le> s0" "s0 \<le> 0xF4"
  have "0x80 \<le> (s0 mod 8) * 262144 + (s1 mod 64) * 4096 + (s2 mod 64) * 64 + s3 mod 64"
    if a: "accepted (acceptRanges s0) s1"
  proof (cases "s0 = 0xF0")
    case True
    with a have "0x90 \<le> s1" "s1 \<le> 0xBF" by (simp_all add: accepted_def acceptRanges_def)
    then have "16 \<le> s1 mod 64" using mod_window [of s1 "s1 - 128" 2 64] by simp
    then show ?thesis by simp
  next
    case False
    with r have "1 \<le> s0 mod 8" using mod_window [of s0 "s0 - 240" 30 8] by simp
    then show ?thesis by simp
  qed
  with 1 show ?thesis by (simp add: RuneError_def)
qed (simp_all add: RuneError_def)

lemma decodeRune_comma_to_space:
  "decodeRune (map comma_to_space_rune bs) =
     (comma_to_space_rune (fst (decodeRune bs)), snd (decodeRune bs))"
proof (cases bs)
  case Nil
  then show ?thesis by (simp add: comma_to_space_rune_def RuneError_def)
next
  case (Cons s0 t)
  show ?thesis
  proof (cases "s0 < 0x80")
    case True
    then have "comma_to_space_rune s0 < 0x80" by (simp add: comma_to_space_rune_def)
    with True Cons show ?thesis by simp
  next
    case False
    then have s0: "comma_to_space_rune s0 = s0" by (simp add: comma_to_space_rune_def)
    have ge: "0x80 \<le> fst (decodeRune (s0 # t))"
      using False decode2_ge [of s0 t] decode3_ge [of s0 t] decode4_ge [of s0 t]
      by (simp add: RuneError_def)
    then have "comma_to_space_rune (fst (decodeRune (s0 # t))) = fst (decodeRune (s0 # t))"
      by (simp add: comma_to_space_rune_def)
    moreover have "decodeRune (map comma_to_space_rune (s0 # t)) = decodeRune (s0 # t)"
      using False
      by (simp add: s0 decode2_comma_to_space decode3_comma_to_space decode4_comma_to_space)
    ultimately show ?thesis using Cons by simp
  qed
qed

lemma DecodeRuneInString_comma_to_space:
  "DecodeRuneInString (map comma_to_space s) =
     (comma_to_space_rune (fst (DecodeRuneInString s)), snd (DecodeRuneInString s))"
  using decodeRune_comma_to_space [of "map of_char s"]
  by (simp add: DecodeRuneInString_def comp_def of_char_comma_to_space)

lemma range_string_comma_to_space:
  "range_string (map comma_to_space s) =
     map (\<lambda>(r, bs). (comma_to_space_rune r, map comma_to_space bs)) (range_string s)"
proof (induction s rule: range_string.induct)
  case (1 s)
  show ?case
  proof (cases "s = []")
    case True
    then show ?thesis by (simp add: range_string.simps)
  next
    case False
    with 1 show ?thesis
      by (subst range_string.simps, subst (2) range_string.simps)
         (simp add: DecodeRuneInString_comma_to_space take_map drop_map)
  qed
qed

text \<open>The bytes of a rune decoded from more than one byte are not ASCII characters.\<close>

lemma decode2_bytes: "decode2 s0 t = (r, n) \<Longrightarrow> b \<in> set (take (n - 1) t) \<Longrightarrow> 0x80 \<le> b"
  using acceptRanges_lo [of s0]
  by (cases t) (auto simp: accepted_def split: if_splits)

lemma decode3_bytes: "decode3 s0 t = (r, n) \<Longrightarrow> b \<in> set (take (n - 1) t) \<Longrightarrow> 0x80 \<le> b"
  using acceptRanges_lo [of s0]
  by (cases "(s0, t)" rule: decode3.cases) (auto simp: accepted_def locb_hicb_def split: if_splits)

lemma decode4_bytes: "decode4 s0 t = (r, n) \<Longrightarrow> b \<in> set (take (n - 1) t) \<Longrightarrow> 0x80 \<le> b"
  using acceptRanges_lo [of s0]
  by (cases "(s0, t)" rule: decode4.cases) (auto simp: accepted_def locb_hicb_def split: if_splits)

lemma decodeRune_bytes:
  assumes "b \<in> set (take (snd (decodeRune bs)) bs)" and "b < 0x80"
  shows "fst (decodeRune bs) = b"
proof (cases bs)
  case Nil
  with assms show ?thesis by simp
next
  case (Cons s0 t)
  show ?thesis
  proof (cases "s0 < 0x80")
    case True
    with assms Cons show ?thesis by simp
  next
    case False
    obtain r n where d: "decodeRune (s0 # t) = (r, n)" by (cases "decodeRune (s0 # t)")
    have "1 \<le> n"
      using d False decode2_width [of s0 t r n] decode3_width [of s0 t r n]
        decode4_width [of s0 t r n] by (auto split: if_splits)
    then have "take n (s0 # t) = s0 # take (n - 1) t" by (cases n) simp_all
    with assms Cons d False have "b \<in> set (take (n - 1) t)" by auto
    then have "0x80 \<le> b"
      using d False decode2_bytes [of s0 t r n b] decode3_bytes [of s0 t r n b]
        decode4_bytes [of s0 t r n b] by (auto split: if_splits)
    with assms show ?thesis by simp
  qed
qed

lemma chunk_comma:
  assumes "CHR '','' \<in> set (take (snd (DecodeRuneInString s)) s)"
  shows "fst (DecodeRuneInString s) = 0x2C"
proof -
  have "of_char (CHR '','') \<in> of_char ` set (take (snd (DecodeRuneInString s)) s)"
    using assms by (rule imageI)
  then have "(0x2C::nat) \<in> set (take (snd (decodeRune (map of_char s))) (map of_char s))"
    by (simp add: DecodeRuneInString_def take_map)
  then show ?thesis
    using decodeRune_bytes [of "0x2C" "map of_char s"] by (simp add: DecodeRuneInString_def)
qed

lemma range_string_comma:
  "(r, bs) \<in> set (range_string s) \<Longrightarrow> CHR '','' \<in> set bs \<Longrightarrow> r = 0x2C"
proof (induction s rule: range_string.induct)
  case (1 s)
  show ?case
  proof (cases "s = []")
    case True
    with 1 show ?thesis by (simp add: range_string.simps)
  next
    case False
    from "1.prems"(1) False
    have "(r, bs) = (fst (DecodeRuneInString s), take (snd (DecodeRuneInString s)) s)
        \<or> (r, bs) \<in> set (range_string (drop (snd (DecodeRuneInString s)) s))"
      by (subst (asm) range_string.simps) simp
    then show ?thesis
      using "1.IH" [OF False] "1.prems"(2) chunk_comma [of s] by auto
  qed
qed

lemma range_string_bytes_nonempty: "(r, bs) \<in> set (range_string s) \<Longrightarrow> bs \<noteq> []"
proof (induction s rule: range_string.induct)
  case (1 s)
  show ?case
  proof (cases "s = []")
    case True
    with 1 show ?thesis by (simp add: range_string.simps)
  next
    case False
    have "1 \<le> snd (DecodeRuneInString s)"
      using False
        DecodeRuneInString_width [of s "fst (DecodeRuneInString s)" "snd (DecodeRuneInString s)"]
      by simp
    with False have "take (snd (DecodeRuneInString s)) s \<noteq> []" by (cases s) auto
    moreover from "1.prems" False
    have "(r, bs) = (fst (DecodeRuneInString s), take (snd (DecodeRuneInString s)) s)
        \<or> (r, bs) \<in> set (range_string (drop (snd (DecodeRuneInString s)) s))"
      by (subst (asm) range_string.simps) simp
    ultimately show ?thesis using "1.IH" [OF False] by auto
  qed
qed

lemma comma_to_space_id: "CHR '','' \<notin> set bs \<Longrightarrow> map comma_to_space bs = bs"
  by (induction bs) (auto simp: comma_to_space_def)

lemma IsSpace_comma_to_space: "IsSpace (comma_to_space_rune r) \<longleftrightarrow> r = 0x2C \<or> IsSpace r"
  by (auto simp: comma_to_space_rune_def IsSpace_def)

lemma FieldsFunc_loop_normalized:
  assumes "\<And>r bs. (r, bs) \<in> set ch \<Longrightarrow> CHR '','' \<in> set bs \<Longrightarrow> r = 0x2C"
  shows "FieldsFunc_loop IsSpace st
           (map (\<lambda>(r, bs). (comma_to_space_rune r, map comma_to_space bs)) ch)
       = FieldsFunc_loop (\<lambda>r. r = 0x2C \<or> IsSpace r) st ch"
  using assms
proof (induction ch arbitrary: st)
  case Nil
  show ?case by (cases st) simp_all
next
  case (Cons c ch)
  obtain r bs where c: "c = (r, bs)" by (cases c)
  have ih: "FieldsFunc_loop IsSpace st'
              (map (\<lambda>(r, bs). (comma_to_space_rune r, map comma_to_space bs)) ch)
       = FieldsFunc_loop (\<lambda>r. r = 0x2C \<or> IsSpace r) st' ch" for st'
    using Cons.IH [of st'] Cons.prems by auto
  have "r \<noteq> 0x2C \<Longrightarrow> map comma_to_space bs = bs"
    using Cons.prems [of r bs] c comma_to_space_id [of bs] by auto
  then show ?case
    by (cases st) (auto simp: c ih IsSpace_comma_to_space)
qed

lemma split_at_not_Nil: "split_at sep xs \<noteq> []"
  by (induction xs) auto

lemma FieldsFunc_loop_split_at:
  "FieldsFunc_loop f None ch =
     map (\<lambda>piece. concat (map snd piece))
       (filter (\<lambda>piece. piece \<noteq> []) (split_at (\<lambda>(r, bs). f r) ch))"
  "FieldsFunc_loop f (Some cur) ch =
     (cur @ concat (map snd (hd (split_at (\<lambda>(r, bs). f r) ch))))
       # map (\<lambda>piece. concat (map snd piece))
           (filter (\<lambda>piece. piece \<noteq> []) (tl (split_at (\<lambda>(r, bs). f r) ch)))"
proof (induction ch arbitrary: cur)
  case Nil
  { case 1 show ?case by simp }
  { case 2 show ?case by simp }
next
  case (Cons c ch)
  obtain r bs where c: "c = (r, bs)" by (cases c)
  have ne: "split_at (\<lambda>(r, bs). f r) ch \<noteq> []" by (rule split_at_not_Nil)
  { case 1
    show ?case using ne by (cases "split_at (\<lambda>(r, bs). f r) ch") (simp_all add: c Cons.IH) }
  { case 2
    show ?case using ne by (cases "split_at (\<lambda>(r, bs). f r) ch") (simp_all add: c Cons.IH) }
qed

lemma parsePrefixes_refines: "parsePrefixes input = parsePrefixes_spec input"
proof -
  have "ReplaceAll input '','' '' '' = map comma_to_space input"
    by (simp add: ReplaceAll_byte comma_to_space_def [abs_def])
  then have "parsePrefixes input =
      FieldsFunc_loop IsSpace None
        (map (\<lambda>(r, bs). (comma_to_space_rune r, map comma_to_space bs)) (range_string input))"
    by (simp add: parsePrefixes_def Fields_def FieldsFunc_def range_string_comma_to_space)
  also have "\<dots> = FieldsFunc_loop (\<lambda>r. r = 0x2C \<or> IsSpace r) None (range_string input)"
    by (rule FieldsFunc_loop_normalized) (rule range_string_comma)
  finally show ?thesis
    by (simp add: parsePrefixes_spec_def FieldsFunc_loop_split_at)
qed

lemma split_at_pieces: "piece \<in> set (split_at sep xs) \<Longrightarrow> set piece \<subseteq> set xs"
proof (induction xs arbitrary: piece)
  case Nil
  then show ?case by simp
next
  case (Cons x xs)
  have ne: "split_at sep xs \<noteq> []" by (rule split_at_not_Nil)
  then obtain p ps where ps: "split_at sep xs = p # ps" by (cases "split_at sep xs") auto
  have "set p \<subseteq> set xs" using Cons.IH [of p] ps by simp
  moreover have "\<And>q. q \<in> set ps \<Longrightarrow> set q \<subseteq> set xs" using Cons.IH ps by simp
  ultimately show ?case using Cons.prems ps by (auto split: if_splits)
qed

lemma parsePrefixes_no_empty_token: "[] \<notin> set (parsePrefixes input)"
proof
  assume "[] \<in> set (parsePrefixes input)"
  then obtain piece where p: "piece \<noteq> []" "concat (map snd piece) = []"
    "piece \<in> set (split_at (\<lambda>(r, bs). r = 0x2C \<or> IsSpace r) (range_string input))"
    by (auto simp: parsePrefixes_refines parsePrefixes_spec_def)
  from p(1) obtain r bs rest where piece: "piece = (r, bs) # rest" by (cases piece) auto
  with p(2) have "bs = []" by simp
  moreover have "(r, bs) \<in> set (range_string input)"
    using split_at_pieces [OF p(3)] piece by auto
  ultimately show False
    using range_string_bytes_nonempty [of r bs input] by simp
qed

lemma parsePrefixes_part000_eq: "parsePrefixes_part000 = parsePrefixes"
  by (rule ext) (simp add: parsePrefixes_part000_def parsePrefixes_def)

lemmas parsePrefixes_eval =
  parsePrefixes_def Fields_def FieldsFunc_def ReplaceAll_byte range_string_ascii
  range_string_Nil IsSpace_def

section \<open>Properties of the classifier\<close>

lemma and_not_mask_eq_iff:
  "(w AND NOT (mask k) = v AND NOT (mask k)) \<longleftrightarrow> drop_bit k w = drop_bit k v"
  for w v :: "'a::len word"
proof
  assume a: "w AND NOT (mask k) = v AND NOT (mask k)"
  show "drop_bit k w = drop_bit k v"
  proof (rule bit_eqI)
    fix n
    have "bit (w AND NOT (mask k)) (k + n) = bit (v AND NOT (mask k)) (k + n)" using a by simp
    then show "bit (drop_bit k w) n = bit (drop_bit k v) n"
      by (auto simp: bit_simps dest: bit_imp_le_length)
  qed
next
  assume a: "drop_bit k w = drop_bit k v"
  show "w AND NOT (mask k) = v AND NOT (mask k)"
  proof (rule bit_eqI)
    fix n
    have "bit (drop_bit k w) (n - k) = bit (drop_bit k v) (n - k)" using a by simp
    then show "bit (w AND NOT (mask k)) n = bit (v AND NOT (mask k)) n"
      by (auto simp: bit_simps)
  qed
qed

lemma byte_masked_iff:
  "(b AND NOT (mask k) = c AND NOT (mask k)) \<longleftrightarrow> unat b div 2 ^ k = unat c div 2 ^ k"
  for b c :: "8 word"
proof -
  have "(drop_bit k b = drop_bit k c) \<longleftrightarrow> unat (drop_bit k b) = unat (drop_bit k c)"
    by (simp add: word_unat_eq_iff)
  moreover have "unat (drop_bit k x) = unat x div 2 ^ k" for x :: "8 word"
    by (subst unat_drop_bit_eq) (simp add: drop_bit_eq_div)
  ultimately show ?thesis
    by (simp only: and_not_mask_eq_iff)
qed

lemma byte_and_240: "(16 = b AND 240) \<longleftrightarrow> unat b div 16 = 1" for b :: "8 word"
proof -
  have m: "NOT (mask 4) = (240 :: 8 word)" by (simp add: mask_eq_exp_minus_1)
  have "(b AND 240 = 16 AND 240) \<longleftrightarrow> unat b div 2 ^ 4 = unat (16 :: 8 word) div 2 ^ 4"
    using byte_masked_iff [of b 4 16] by (simp only: m)
  then show ?thesis by auto
qed

lemma byte_and_192: "(128 = b AND 192) \<longleftrightarrow> unat b div 64 = 2" for b :: "8 word"
proof -
  have m: "NOT (mask 6) = (192 :: 8 word)" by (simp add: mask_eq_exp_minus_1)
  have "(b AND 192 = 128 AND 192) \<longleftrightarrow> unat b div 2 ^ 6 = unat (128 :: 8 word) div 2 ^ 6"
    using byte_masked_iff [of b 6 128] by (simp only: m)
  then show ?thesis by auto
qed

lemma byte_and_255: "b AND 255 = b" for b :: "8 word"
proof -
  have "(255 :: 8 word) = - 1" by simp
  then show ?thesis by (simp only: and.right_neutral)
qed

lemma CIDRMask_loop_unfold:
  "CIDRMask_loop l n =
    (if l = 0 then []
     else if 8 \<le> n then 0xff # CIDRMask_loop (l - 1) (n - 8)
     else NOT (drop_bit n (0xff :: byte)) # CIDRMask_loop (l - 1) 0)"
  by (cases l) simp_all

lemma CIDRMask_values:
  "CIDRMask 8 32 = [255, 0, 0, 0]"
  "CIDRMask 12 32 = [255, 240, 0, 0]"
  "CIDRMask 16 32 = [255, 255, 0, 0]"
  "CIDRMask 128 128 = [255, 255, 255, 255, 255, 255, 255, 255, 255, 255, 255, 255, 255, 255, 255, 255]"
  "CIDRMask 10 128 = [255, 192, 0, 0, 0, 0, 0, 0, 0, 0, 0, 0, 0, 0, 0, 0]"
  "CIDRMask 7 128 = [254, 0, 0, 0, 0, 0, 0, 0, 0, 0, 0, 0, 0, 0, 0, 0]"
  by (simp_all add: CIDRMask_def CIDRMask_loop_unfold)

lemma replicate_unfold:
  "replicate n x = (if n = 0 then [] else x # replicate (n - 1) x)"
  by (cases n) simp_all

lemmas ParseCIDR_eval = replicate_unfold
  ParseCIDR_def IndexByteString_def ParseAddr_def parseIPv4_def parseIPv4Fields_def
  parseIPv6_def parseIPv6_loop.simps isDigit_def digitVal_def isHex_def hexVal_def dtoi_def
  Zone_def BitLen_def As16_def CIDRMask_values IP_Mask_def v4InV6Prefix_def Let_def

lemma ParseCIDR_builtin:
  "ParseCIDR ''127.0.0.0/8'' =
     Inr ([0, 0, 0, 0, 0, 0, 0, 0, 0, 0, 255, 255, 127, 0, 0, 0],
          \<lparr>IP = [127, 0, 0, 0], Mask = [255, 0, 0, 0]\<rparr>)"
  "ParseCIDR ''10.0.0.0/8'' =
     Inr ([0, 0, 0, 0, 0, 0, 0, 0, 0, 0, 255, 255, 10, 0, 0, 0],
          \<lparr>IP = [10, 0, 0, 0], Mask = [255, 0, 0, 0]\<rparr>)"
  "ParseCIDR ''172.16.0.0/12'' =
     Inr ([0, 0, 0, 0, 0, 0, 0, 0, 0, 0, 255, 255, 172, 16, 0, 0],
          \<lparr>IP = [172, 16, 0, 0], Mask = [255, 240, 0, 0]\<rparr>)"
  "ParseCIDR ''192.168.0.0/16'' =
     Inr ([0, 0, 0, 0, 0, 0, 0, 0, 0, 0, 255, 255, 192, 168, 0, 0],
          \<lparr>IP = [192, 168, 0, 0], Mask = [255, 255, 0, 0]\<rparr>)"
  "ParseCIDR ''169.254.0.0/16'' =
     Inr ([0, 0, 0, 0, 0, 0, 0, 0, 0, 0, 255, 255, 169, 254, 0, 0],
          \<lparr>IP = [169, 254, 0, 0], Mask = [255, 255, 0, 0]\<rparr>)"
  "ParseCIDR ''::1/128'' =
     Inr ([0, 0, 0, 0, 0, 0, 0, 0, 0, 0, 0, 0, 0, 0, 0, 1],
          \<lparr>IP = [0, 0, 0, 0, 0, 0, 0, 0, 0, 0, 0, 0, 0, 0, 0, 1],
            Mask = [255, 255, 255, 255, 255, 255, 255, 255, 255, 255, 255, 255, 255, 255, 255, 255]\<rparr>)"
  "ParseCIDR ''fe80::/10'' =
     Inr ([254, 128, 0, 0, 0, 0, 0, 0, 0, 0, 0, 0, 0, 0, 0, 0],
          \<lparr>IP = [254, 128, 0, 0, 0, 0, 0, 0, 0, 0, 0, 0, 0, 0, 0, 0],
            Mask = [255, 192, 0, 0, 0, 0, 0, 0, 0, 0, 0, 0, 0, 0, 0, 0]\<rparr>)"
  "ParseCIDR ''fc00::/7'' =
     Inr ([252, 0, 0, 0, 0, 0, 0, 0, 0, 0, 0, 0, 0, 0, 0, 0],
          \<lparr>IP = [252, 0, 0, 0, 0, 0, 0, 0, 0, 0, 0, 0, 0, 0, 0, 0],
            Mask = [254, 0, 0, 0, 0, 0, 0, 0, 0, 0, 0, 0, 0, 0, 0, 0]\<rparr>)"
  by (simp_all add: ParseCIDR_eval)

lemma init_value: "init = Inr builtinBlocks"
  by (simp add: init_def setupPrivateIPBlocks_def ParseCIDR_builtin builtinBlocks_def)

lemma init_part000_value: "init_part000 = Inr builtinBlocks"
  by (simp add: init_part000_def setupPrivateIPBlocks_part000_def ParseCIDR_builtin builtinBlocks_def)

text \<open>The loop of setupPrivateIPBlocks, for any list of entries.\<close>

lemma setupPrivateIPBlocks_loop_char:
  "setupPrivateIPBlocks_loop cidrs blocks =
    (case find (\<lambda>cidr. isl (ParseCIDR cidr)) cidrs of
      Some cidr \<Rightarrow> Inl (Errorf ''parse error on %q: %v'' cidr (projl (ParseCIDR cidr)))
    | None \<Rightarrow> Inr (blocks @ map (\<lambda>cidr. snd (projr (ParseCIDR cidr))) cidrs))"
proof (induction cidrs arbitrary: blocks)
  case Nil
  show ?case by simp
next
  case (Cons cidr cidrs)
  show ?case
    by (cases "ParseCIDR cidr") (auto simp: Cons.IH split: prod.splits option.splits)
qed

lemma ipValue_append: "ipValue (xs @ ys) = ipValue xs * 256 ^ length ys + ipValue ys"
proof (induction ys rule: rev_induct)
  case Nil
  show ?case by (simp add: ipValue_def)
next
  case (snoc y ys)
  have "ipValue (xs @ ys @ [y]) = ipValue (xs @ ys) * 256 + unat y"
    by (simp add: ipValue_def)
  also have "\<dots> = (ipValue xs * 256 ^ length ys + ipValue ys) * 256 + unat y"
    by (simp only: snoc.IH)
  also have "\<dots> = ipValue xs * 256 ^ length (ys @ [y]) + ipValue (ys @ [y])"
    by (simp add: ipValue_def algebra_simps)
  finally show ?case by simp
qed

lemma ipValue_bound: "ipValue ys < 256 ^ length ys"
proof (induction ys rule: rev_induct)
  case Nil
  show ?case by (simp add: ipValue_def)
next
  case (snoc y ys)
  have "unat y < 256" using unsigned_less [of y, where ?'a = nat] by simp
  moreover have "ipValue (ys @ [y]) = ipValue ys * 256 + unat y" by (simp add: ipValue_def)
  moreover have "ipValue ys + 1 \<le> 256 ^ length ys" using snoc.IH by simp
  then have "(ipValue ys + 1) * 256 \<le> 256 ^ length ys * 256" by (rule mult_le_mono1)
  ultimately show ?case by simp
qed

lemma ipValue_div:
  "0 < k \<Longrightarrow> ipValue (xs @ ys) div (256 ^ length ys * k) = ipValue xs div k"
proof -
  have "(ipValue xs * 256 ^ length ys + ipValue ys) div 256 ^ length ys = ipValue xs"
    using ipValue_bound [of ys] by simp
  then show ?thesis
    by (simp add: ipValue_append div_mult2_eq)
qed

lemma ipValue_Cons: "ipValue (x # xs) = unat x * 256 ^ length xs + ipValue xs"
  using ipValue_append [of "[x]" xs] by (simp add: ipValue_def)

lemma ipValue_inj: "length xs = length ys \<Longrightarrow> ipValue xs = ipValue ys \<Longrightarrow> xs = ys"
proof (induction xs ys rule: list_induct2)
  case Nil
  show ?case by simp
next
  case (Cons x xs y ys)
  let ?P = "256 ^ length xs :: nat"
  have e: "unat x * ?P + ipValue xs = unat y * ?P + ipValue ys"
    using Cons.prems Cons.hyps by (simp add: ipValue_Cons)
  have bx: "ipValue xs < ?P" by (rule ipValue_bound)
  have by': "ipValue ys < ?P" using ipValue_bound [of ys] Cons.hyps by simp
  have "(unat x * ?P + ipValue xs) div ?P = unat x" using bx by simp
  moreover have "(unat y * ?P + ipValue ys) div ?P = unat y" using by' by simp
  ultimately have x: "unat x = unat y" using e by simp
  with e have "ipValue xs = ipValue ys" by simp
  with x Cons.IH show ?case by (simp add: word_unat_eq_iff)
qed

text \<open>What membership in a range says about the leading bytes.\<close>

lemma split_digits:
  assumes "(a::nat) * m + r = a' * m + r'" and "r < m" and "r' < m"
  shows "a = a' \<and> r = r'"
proof -
  have "(a * m + r) div m = a" using assms(2) by simp
  moreover have "(a' * m + r') div m = a'" using assms(3) by simp
  ultimately have "a = a'" using assms(1) by simp
  with assms(1) show ?thesis by simp
qed

lemma byte_bound: "unat (b :: byte) < 256"
  using unsigned_less [of b, where ?'a = nat] by simp

lemma ipValue_div_24: "ipValue [a, b, c, d] div 2 ^ 24 = unat a"
  using ipValue_div [of 1 "[a]" "[b, c, d]"] by (simp add: ipValue_def)

lemma ipValue_div_20: "ipValue [a, b, c, d] div 2 ^ 20 = unat a * 16 + unat b div 16"
proof -
  have "ipValue [a, b, c, d] div 2 ^ 20 = (unat a * 256 + unat b) div 16"
    using ipValue_div [of 16 "[a, b]" "[c, d]"] by (simp add: ipValue_def)
  also have "\<dots> = unat a * 16 + unat b div 16" by simp
  finally show ?thesis .
qed

lemma ipValue_div_16: "ipValue [a, b, c, d] div 2 ^ 16 = unat a * 256 + unat b"
  using ipValue_div [of 1 "[a, b]" "[c, d]"] by (simp add: ipValue_def)

lemma ipValue_div_118:
  "length rest = 14 \<Longrightarrow> ipValue (a # b # rest) div 2 ^ 118 = unat a * 4 + unat b div 64"
proof -
  assume l: "length rest = 14"
  have "ipValue ([a, b] @ rest) div (256 ^ length rest * 64) = (unat a * 256 + unat b) div 64"
    using ipValue_div [of 64 "[a, b]" rest] by (simp add: ipValue_def)
  also have "\<dots> = unat a * 4 + unat b div 64" by simp
  finally show ?thesis using l by simp
qed

lemma ipValue_div_121:
  "length rest = 15 \<Longrightarrow> ipValue (a # rest) div 2 ^ 121 = unat a div 2"
proof -
  assume l: "length rest = 15"
  have "ipValue ([a] @ rest) div (256 ^ length rest * 2) = unat a div 2"
    using ipValue_div [of 2 "[a]" rest] by (simp add: ipValue_def)
  then show ?thesis using l by simp
qed

lemma length_4E:
  assumes "length (ip :: IP) = 4"
  obtains a b c d where "ip = [a, b, c, d]"
  using assms by (auto simp: length_Suc_conv numeral_eq_Suc)

lemma inCIDR_8:
  assumes "inCIDR [n0, 0, 0, 0] 8 ip"
  obtains b c d where "ip = [n0, b, c, d]"
proof -
  from assms have "length ip = 4" by (simp add: inCIDR_def)
  then obtain a b c d where ip: "ip = [a, b, c, d]" by (rule length_4E)
  have "ipValue ip div 2 ^ 24 = ipValue [n0, 0, 0, 0] div 2 ^ 24"
    using assms by (simp add: inCIDR_def)
  then have "unat a = unat n0" by (simp only: ip ipValue_div_24)
  then have "a = n0" by (simp add: word_unat_eq_iff)
  with ip that show thesis by simp
qed

lemma inCIDR_12:
  assumes "inCIDR [172, 16, 0, 0] 12 ip"
  obtains b c d where "ip = [172, b, c, d]" and "unat b div 16 = 1"
proof -
  from assms have "length ip = 4" by (simp add: inCIDR_def)
  then obtain a b c d where ip: "ip = [a, b, c, d]" by (rule length_4E)
  have "ipValue ip div 2 ^ 20 = ipValue [172, 16, 0, 0] div 2 ^ 20"
    using assms by (simp add: inCIDR_def)
  then have "unat a * 16 + unat b div 16 = 172 * 16 + 1" by (simp only: ip ipValue_div_20) simp
  moreover have "unat b div 16 < 16" using byte_bound [of b] by simp
  ultimately have "unat a = 172 \<and> unat b div 16 = 1"
    using split_digits [of "unat a" 16 "unat b div 16" 172 1] by simp
  then have "a = 172" "unat b div 16 = 1" by (simp_all add: word_unat_eq_iff)
  with ip that show thesis by simp
qed

lemma inCIDR_16:
  assumes "inCIDR [n0, n1, 0, 0] 16 ip"
  obtains c d where "ip = [n0, n1, c, d]"
proof -
  from assms have "length ip = 4" by (simp add: inCIDR_def)
  then obtain a b c d where ip: "ip = [a, b, c, d]" by (rule length_4E)
  have "ipValue ip div 2 ^ 16 = ipValue [n0, n1, 0, 0] div 2 ^ 16"
    using assms by (simp add: inCIDR_def)
  then have "unat a * 256 + unat b = unat n0 * 256 + unat n1" by (simp only: ip ipValue_div_16)
  then have "unat a = unat n0 \<and> unat b = unat n1"
    using byte_bound [of b] byte_bound [of n1]
      split_digits [of "unat a" 256 "unat b" "unat n0" "unat n1"] by simp
  then have "a = n0" "b = n1" by (simp_all add: word_unat_eq_iff)
  with ip that show thesis by simp
qed

lemma inCIDR_128:
  assumes "inCIDR IPv6loopback 128 ip"
  shows "ip = IPv6loopback"
proof -
  from assms have "length ip = length IPv6loopback" "ipValue ip = ipValue IPv6loopback"
    by (simp_all add: inCIDR_def IPv6loopback_def)
  then show ?thesis by (rule ipValue_inj)
qed

lemma inCIDR_10:
  assumes "inCIDR [0xfe, 0x80, 0, 0, 0, 0, 0, 0, 0, 0, 0, 0, 0, 0, 0, 0] 10 ip"
  obtains b rest where "ip = 0xfe # b # rest" and "length rest = 14" and "unat b div 64 = 2"
proof -
  from assms have "length ip = 16" by (simp add: inCIDR_def)
  then obtain a b rest where ip: "ip = a # b # rest" and l: "length rest = 14"
    by (auto simp: length_Suc_conv numeral_eq_Suc)
  have "ipValue ip div 2 ^ 118
      = ipValue (0xfe # 0x80 # [0, 0, 0, 0, 0, 0, 0, 0, 0, 0, 0, 0, 0, 0]) div 2 ^ 118"
    using assms by (simp add: inCIDR_def)
  moreover have "ipValue (0xfe # 0x80 # [0, 0, 0, 0, 0, 0, 0, 0, 0, 0, 0, 0, 0, 0]) div 2 ^ 118
      = unat (0xfe :: byte) * 4 + unat (0x80 :: byte) div 64"
    by (rule ipValue_div_118) simp
  moreover have "ipValue ip div 2 ^ 118 = unat a * 4 + unat b div 64"
    unfolding ip using l by (rule ipValue_div_118)
  ultimately have "unat a * 4 + unat b div 64 = 254 * 4 + 2" by simp
  moreover have "unat b div 64 < 4" using byte_bound [of b] by simp
  ultimately have "unat a = 254 \<and> unat b div 64 = 2"
    using split_digits [of "unat a" 4 "unat b div 64" 254 2] by simp
  then have "a = 254" "unat b div 64 = 2" by (simp_all add: word_unat_eq_iff)
  with ip l that show thesis by simp
qed

lemma inCIDR_7:
  assumes "inCIDR [0xfc, 0, 0, 0, 0, 0, 0, 0, 0, 0, 0, 0, 0, 0, 0, 0] 7 ip"
  obtains a rest where "ip = a # rest" and "length rest = 15" and "unat a div 2 = 126"
proof -
  from assms have "length ip = 16" by (simp add: inCIDR_def)
  then obtain a rest where ip: "ip = a # rest" and l: "length rest = 15"
    by (auto simp: length_Suc_conv numeral_eq_Suc)
  have "ipValue ip div 2 ^ 121
      = ipValue (0xfc # [0, 0, 0, 0, 0, 0, 0, 0, 0, 0, 0, 0, 0, 0, 0]) div 2 ^ 121"
    using assms by (simp add: inCIDR_def)
  moreover have "ipValue (0xfc # [0, 0, 0, 0, 0, 0, 0, 0, 0, 0, 0, 0, 0, 0, 0]) div 2 ^ 121
      = unat (0xfc :: byte) div 2"
    by (rule ipValue_div_121) simp
  moreover have "ipValue ip div 2 ^ 121 = unat a div 2"
    unfolding ip using l by (rule ipValue_div_121)
  ultimately have "unat a div 2 = 126" by simp
  with ip l that show thesis by simp
qed

lemma byte_and_240': "(b AND 240 = 16) \<longleftrightarrow> unat b div 16 = 1" for b :: byte
  using byte_and_240 [of b] by auto

lemma byte_and_192': "(b AND 192 = 128) \<longleftrightarrow> unat b div 64 = 2" for b :: byte
  using byte_and_192 [of b] by auto

lemmas isPrivateIP_eval =
  isPrivateIP_def IsLoopback_def IsLinkLocalUnicast_def IsLinkLocalMulticast_def To4_def
  IP_Equal_def IPv6loopback_def Contains_def networkNumberAndMask_def builtinBlocks_def
  v4InV6Prefix_def Let_def byte_and_255 byte_and_240 byte_and_240' byte_and_192 byte_and_192'

lemma To4_idem: "To4 (To4 ip) = To4 ip"
  by (auto simp: To4_def)

lemma isPrivateIP_loop_To4:
  "To4 ip \<noteq> [] \<Longrightarrow> isPrivateIP_loop blocks (To4 ip) = isPrivateIP_loop blocks ip"
  by (induction blocks) (simp_all add: Contains_def To4_idem)

lemma isPrivateIP_To4:
  "To4 ip \<noteq> [] \<Longrightarrow> isPrivateIP blocks (To4 ip) = isPrivateIP blocks ip"
  by (simp add: isPrivateIP_def IsLoopback_def IsLinkLocalUnicast_def IsLinkLocalMulticast_def
      To4_idem isPrivateIP_loop_To4)

lemma private_127: "isPrivateIP builtinBlocks [127, b, c, d]"
  by (simp add: isPrivateIP_eval)

lemma private_10: "isPrivateIP builtinBlocks [10, b, c, d]"
  by (simp add: isPrivateIP_eval)

lemma private_172: "unat b div 16 = 1 \<Longrightarrow> isPrivateIP builtinBlocks [172, b, c, d]"
  by (simp add: isPrivateIP_eval)

lemma private_192: "isPrivateIP builtinBlocks [192, 168, c, d]"
  by (simp add: isPrivateIP_eval)

lemma private_169: "isPrivateIP builtinBlocks [169, 254, c, d]"
  by (simp add: isPrivateIP_eval)

lemma private_loopback6: "isPrivateIP builtinBlocks IPv6loopback"
  by (simp add: isPrivateIP_eval)

lemma private_fe80:
  "length rest = 14 \<Longrightarrow> unat b div 64 = 2 \<Longrightarrow> isPrivateIP builtinBlocks (0xfe # b # rest)"
  by (simp add: isPrivateIP_eval)

lemma Contains_loop_zero_mask: "list_all (\<lambda>m. m = 0) ms \<Longrightarrow> Contains_loop nn ms ip"
  by (induction nn ms ip rule: Contains_loop.induct) simp_all

lemma private_fc00:
  assumes "length rest = 15" and "unat a div 2 = 126"
  shows "isPrivateIP builtinBlocks (a # rest)"
proof -
  from assms(2) have "unat a = 252 \<or> unat a = 253" by arith
  then have a: "a = 252 \<or> a = 253" by (simp add: word_unat_eq_iff)
  have z: "Contains_loop [0, 0, 0, 0, 0, 0, 0, 0, 0, 0, 0, 0, 0, 0, 0]
             [0, 0, 0, 0, 0, 0, 0, 0, 0, 0, 0, 0, 0, 0, 0] rest"
    by (rule Contains_loop_zero_mask) simp
  from a show ?thesis
  proof
    assume "a = 252"
    with assms(1) z show ?thesis by (simp add: isPrivateIP_eval)
  next
    assume "a = 253"
    with assms(1) z show ?thesis by (simp add: isPrivateIP_eval)
  qed
qed

lemma public_8888: "\<not> isPrivateIP builtinBlocks [8, 8, 8, 8]"
  by (simp add: isPrivateIP_eval)

lemma inReservedRange_private:
  assumes "inReservedRange ip"
  shows "isPrivateIP builtinBlocks ip"
proof -
  from assms consider
      "inCIDR [127, 0, 0, 0] 8 ip" | "inCIDR [10, 0, 0, 0] 8 ip"
    | "inCIDR [172, 16, 0, 0] 12 ip" | "inCIDR [192, 168, 0, 0] 16 ip"
    | "inCIDR [169, 254, 0, 0] 16 ip" | "inCIDR IPv6loopback 128 ip"
    | "inCIDR [0xfe, 0x80, 0, 0, 0, 0, 0, 0, 0, 0, 0, 0, 0, 0, 0, 0] 10 ip"
    | "inCIDR [0xfc, 0, 0, 0, 0, 0, 0, 0, 0, 0, 0, 0, 0, 0, 0, 0] 7 ip"
    by (auto simp: inReservedRange_def reservedRanges_def IPv6loopback_def)
  then show ?thesis
  proof cases
    case 1
    then show ?thesis by (rule inCIDR_8) (simp add: private_127)
  next
    case 2
    then show ?thesis by (rule inCIDR_8) (simp add: private_10)
  next
    case 3
    then show ?thesis by (rule inCIDR_12) (simp add: private_172)
  next
    case 4
    then show ?thesis by (rule inCIDR_16) (simp add: private_192)
  next
    case 5
    then show ?thesis by (rule inCIDR_16) (simp add: private_169)
  next
    case 6
    then have "ip = IPv6loopback" by (rule inCIDR_128)
    then show ?thesis by (simp only: private_loopback6)
  next
    case 7
    then show ?thesis by (rule inCIDR_10) (simp add: private_fe80)
  next
    case 8
    then show ?thesis by (rule inCIDR_7) (simp add: private_fc00)
  qed
qed

lemma inReservedRange_examples:
  "inReservedRange [10, 0, 0, 5]"
  "inReservedRange [172, 31, 255, 255]"
  "\<not> inReservedRange [172, 32, 0, 0]"
  "inReservedRange [0xfe, 0xbf, 0, 0, 0, 0, 0, 0, 0, 0, 0, 0, 0, 0, 0, 7]"
  "inReservedRange [0xfd, 0, 0, 0, 0, 0, 0, 0, 0, 0, 0, 0, 0, 0, 0, 7]"
  "\<not> inReservedRange [8, 8, 8, 8]"
  by (simp_all add: inReservedRange_def reservedRanges_def inCIDR_def ipValue_def)

section \<open>Properties of the selector\<close>

lemma sinkCalls_append: "sinkCalls (xs @ ys) = sinkCalls xs @ sinkCalls ys"
  by (induction xs rule: sinkCalls.induct) simp_all

lemma main_prefixes_loop_char:
  "main_prefixes_loop s link prefixes st =
    (if list_ex (HasPrefix s) prefixes
     then st\<lparr>events := events st @ [GenerateWithConfig link], qrGenerated := True\<rparr>
     else st)"
  by (induction prefixes) simp_all

lemma main_prefixes_loop_first_match:
  "\<not> list_ex (HasPrefix s) before \<Longrightarrow> HasPrefix s pre \<Longrightarrow>
   main_prefixes_loop s link (before @ pre # rest) st =
     st\<lparr>events := events st @ [GenerateWithConfig link], qrGenerated := True\<rparr>"
  by (induction before) simp_all

lemma To4_nonempty: "To4 ip \<noteq> [] \<Longrightarrow> ip \<noteq> []"
  by (auto simp: To4_def)

lemma main_addr_body_candidate:
  "To4 (IP ipnet) \<noteq> [] \<Longrightarrow>
   main_addr_body blocks port prefixes (Addr_IPNet ipnet) st =
     st\<lparr>events := events st @ candidate_events blocks port prefixes (IP ipnet),
        qrGenerated := qrGenerated st \<or> matches prefixes (IP ipnet),
        fallbackIP := (if \<not> isPrivateIP blocks (IP ipnet) \<and> fallbackIP st = []
                       then IP ipnet else fallbackIP st),
        fallbackLink := (if \<not> isPrivateIP blocks (IP ipnet) \<and> fallbackIP st = []
                         then link_of port (IP ipnet) else fallbackLink st)\<rparr>"
  by (simp add: main_addr_body_def main_prefixes_loop_char candidate_events_def log_line_def
      link_of_def matches_def Let_def)

lemma main_addr_body_skip:
  "To4 (IP ipnet) = [] \<Longrightarrow> main_addr_body blocks port prefixes (Addr_IPNet ipnet) st = st"
  "main_addr_body blocks port prefixes (Addr_other a) st = st"
  by (simp_all add: main_addr_body_def)

lemma candidates_nonempty: "ip \<in> set (candidates addrs) \<Longrightarrow> ip \<noteq> []"
  by (induction addrs rule: candidates.induct) (auto dest: To4_nonempty split: if_splits)

lemma main_addrs_loop_char:
  "main_addrs_loop blocks port prefixes addrs st =
     st\<lparr>events := events st
          @ concat (map (candidate_events blocks port prefixes) (candidates addrs)),
        qrGenerated := qrGenerated st \<or> list_ex (matches prefixes) (candidates addrs),
        fallbackIP :=
          (if fallbackIP st \<noteq> [] then fallbackIP st
           else case first_public blocks (candidates addrs) of None \<Rightarrow> [] | Some ip \<Rightarrow> ip),
        fallbackLink :=
          (if fallbackIP st \<noteq> [] then fallbackLink st
           else case first_public blocks (candidates addrs) of
                  None \<Rightarrow> fallbackLink st | Some ip \<Rightarrow> link_of port ip)\<rparr>"
proof (induction addrs arbitrary: st rule: candidates.induct)
  case 1
  show ?case by (simp add: first_public_def)
next
  case (2 ipnet addrs)
  show ?case
  proof (cases "To4 (IP ipnet) = []")
    case True
    then show ?thesis using "2.IH"(2) by (simp add: main_addr_body_skip)
  next
    case False
    then have ne: "IP ipnet \<noteq> []" by (rule To4_nonempty)
    show ?thesis
      using False ne "2.IH"(1) [OF False]
      by (auto simp: main_addr_body_candidate first_public_def split: option.splits)
  qed
next
  case (3 a addrs)
  then show ?case by (simp add: main_addr_body_skip)
qed

lemma first_public_nonempty:
  "first_public blocks (candidates addrs) = Some ip \<Longrightarrow> ip \<noteq> []"
  by (auto simp: first_public_def find_Some_iff dest: candidates_nonempty nth_mem)

lemma main_selection_char:
  "main_selection blocks port q addrs =
     concat (map (candidate_events blocks port (parsePrefixes q)) (candidates addrs))
     @ (if list_ex (matches (parsePrefixes q)) (candidates addrs) then []
        else case first_public blocks (candidates addrs) of
               None \<Rightarrow> []
             | Some ip \<Rightarrow> [GenerateWithConfig (link_of port ip)])"
  using first_public_nonempty [of blocks addrs]
  by (auto simp: main_selection_def main_addrs_loop_char Let_def split: option.splits)

lemma sinkCalls_candidate_events:
  "sinkCalls (concat (map (candidate_events blocks port prefixes) ips))
     = map (link_of port) (filter (matches prefixes) ips)"
  by (induction ips) (simp_all add: sinkCalls_append candidate_events_def log_line_def)

lemma sinkCalls_main_selection:
  "sinkCalls (main_selection blocks port q addrs) =
     (if list_ex (matches (parsePrefixes q)) (candidates addrs)
      then map (link_of port) (filter (matches (parsePrefixes q)) (candidates addrs))
      else case first_public blocks (candidates addrs) of
             None \<Rightarrow> []
           | Some ip \<Rightarrow> [link_of port ip])"
proof -
  have "filter (matches (parsePrefixes q)) (candidates addrs) = []"
    if "\<not> list_ex (matches (parsePrefixes q)) (candidates addrs)"
    using that by (simp add: list_ex_iff filter_empty_conv)
  then show ?thesis
    by (simp add: main_selection_char sinkCalls_append sinkCalls_candidate_events
        split: option.splits)
qed

lemma sinkCalls_main:
  "sinkCalls (main blocks port q (Inr addrs)) = sinkCalls (main_selection blocks port q addrs)"
  by (simp add: main_def sinkCalls_append)

text \<open>The two files have the same functions.\<close>

lemma isPrivateIP_loop_part000_eq: "isPrivateIP_loop_part000 blocks ip = isPrivateIP_loop blocks ip"
  by (induction blocks) simp_all

lemma isPrivateIP_part000_eq: "isPrivateIP_part000 = isPrivateIP"
  by (intro ext) (simp add: isPrivateIP_part000_def isPrivateIP_def isPrivateIP_loop_part000_eq)

lemma setupPrivateIPBlocks_loop_part000_eq:
  "setupPrivateIPBlocks_loop_part000 cidrs blocks = setupPrivateIPBlocks_loop cidrs blocks"
  by (induction cidrs arbitrary: blocks) (simp_all split: sum.splits prod.splits)

lemma init_part000_eq: "init_part000 = init"
  by (simp add: init_part000_def init_def setupPrivateIPBlocks_part000_def
      setupPrivateIPBlocks_def setupPrivateIPBlocks_loop_part000_eq)

lemma main_prefixes_loop_part000_eq:
  "main_prefixes_loop_part000 s link prefixes st = main_prefixes_loop s link prefixes st"
  by (induction prefixes) simp_all

lemma main_addr_body_part000_eq:
  "main_addr_body_part000 blocks port prefixes addr st = main_addr_body blocks port prefixes addr st"
  by (cases addr)
     (simp_all add: main_addr_body_part000_def main_addr_body_def isPrivateIP_part000_eq
        main_prefixes_loop_part000_eq)

lemma main_addrs_loop_part000_eq:
  "main_addrs_loop_part000 blocks port prefixes addrs st = main_addrs_loop blocks port prefixes addrs st"
  by (induction addrs arbitrary: st) (simp_all add: main_addr_body_part000_eq)

lemma main_selection_part000_eq:
  "main_selection_part000 blocks port q addrs = main_selection blocks port q addrs"
  by (simp add: main_selection_part000_def main_selection_def main_addrs_loop_part000_eq
      parsePrefixes_part000_eq)

lemma sinkCalls_main_part000:
  "sinkCalls (main_part000 blocks port q t (Inr addrs))
     = sinkCalls (main_selection blocks port q addrs)"
  by (simp add: main_part000_def sinkCalls_append main_selection_part000_eq)

section \<open>Evaluation of runs\<close>

lemma decimal_eval:
  "decimal n = (if n < 10 then [char_of (48 + n)] else decimal (n div 10) @ [char_of (48 + n mod 10)])"
  by (rule decimal.simps)

lemma char_of_digits:
  "char_of (48::nat) = CHR ''0''" "char_of (49::nat) = CHR ''1''" "char_of (50::nat) = CHR ''2''"
  "char_of (51::nat) = CHR ''3''" "char_of (52::nat) = CHR ''4''" "char_of (53::nat) = CHR ''5''"
  "char_of (54::nat) = CHR ''6''" "char_of (55::nat) = CHR ''7''" "char_of (56::nat) = CHR ''8''"
  "char_of (57::nat) = CHR ''9''"
  by (simp_all add: char_of_def bit_Suc_0_iff)

lemmas run_eval = char_of_digits
  program_def main_def main_selection_def main_addr_body_def init_value
  program_part000_def main_part000_def main_selection_part000_def main_addr_body_part000_def
  init_part000_value isPrivateIP_part000_eq parsePrefixes_part000_eq
  parsePrefixes_eval isPrivateIP_eval HasPrefix_def IP_String_def Itoa_def decimal_eval Let_def

lemma ParseCIDR_malformed: "ParseCIDR ''10.0.0/8'' = Inl (ParseError ''CIDR address'' ''10.0.0/8'')"
  by (simp add: ParseCIDR_eval)

section \<open>Properties of the lifecycle\<close>

lemmas lifecycle_eval =
  lifecycle_run_def lifecycle_start_def lifecycle_step_def timer_func_def signal_goroutine_def
  main_after_Done_def main_after_Shutdown_def call_cancel_def

lemma phase_call_cancel: "phase (call_cancel st) = phase st"
  by (simp add: call_cancel_def split: cancel_func.splits)

lemma lifecycle_step_leaves_Serving_for_good:
  "phase st \<noteq> Serving \<Longrightarrow> phase (lifecycle_step occ st) \<noteq> Serving"
  by (cases occ)
     (auto simp: lifecycle_step_def timer_func_def signal_goroutine_def main_after_Shutdown_def
        phase_call_cancel split: option.splits)

lemma lifecycle_run_leaves_Serving_for_good:
  "phase st \<noteq> Serving \<Longrightarrow> phase (fold lifecycle_step occs st) \<noteq> Serving"
  by (induction occs arbitrary: st) (simp_all add: lifecycle_step_leaves_Serving_for_good)

lemma ctx_done_call_cancel: "ctx_done st \<Longrightarrow> ctx_done (call_cancel st)"
  by (simp add: call_cancel_def split: cancel_func.splits)

lemma lifecycle_step_ctx_stays_done:
  "ctx_done st \<Longrightarrow> ctx_done (lifecycle_step occ st)"
  by (cases occ)
     (auto simp: lifecycle_step_def timer_func_def signal_goroutine_def main_after_Shutdown_def
        main_after_Done_def ctx_done_call_cancel split: option.splits)

section \<open>Claims\<close>

text \<open>
  C1. The claim is that every run invokes the Presentation Sink at most once. A run
  with two addresses that both match the prefix \<open>192\<close> invokes it twice.
\<close>

theorem sink_invoked_twice_counterexample:
  "sinkCalls (program 3000 ''192''
     (Inr [Addr_IPNet \<lparr>IP = [192, 168, 1, 2], Mask = [255, 255, 255, 0]\<rparr>,
           Addr_IPNet \<lparr>IP = [192, 168, 7, 1], Mask = [255, 255, 255, 0]\<rparr>]))
   = [''http://192.168.1.2:3000'', ''http://192.168.7.1:3000'']
   \<and> \<not> length (sinkCalls (program 3000 ''192''
     (Inr [Addr_IPNet \<lparr>IP = [192, 168, 1, 2], Mask = [255, 255, 255, 0]\<rparr>,
           Addr_IPNet \<lparr>IP = [192, 168, 7, 1], Mask = [255, 255, 255, 0]\<rparr>]))) \<le> 1"
  by (simp add: run_eval)

text \<open>
  C1, as amended: the selector invokes the Presentation Sink once for each candidate
  that matches a prefix, so at most once per candidate; when no candidate matches, it
  invokes it at most once (once when there is a public candidate, never otherwise).
  The same holds in both files.
\<close>

theorem sink_invoked_once_per_matching_candidate:
  "length (sinkCalls (main blocks port q (Inr addrs))) =
     (if list_ex (matches (parsePrefixes q)) (candidates addrs)
      then length (filter (matches (parsePrefixes q)) (candidates addrs))
      else case first_public blocks (candidates addrs) of None \<Rightarrow> 0 | Some ip \<Rightarrow> 1)
   \<and> length (filter (matches (parsePrefixes q)) (candidates addrs)) \<le> length (candidates addrs)
   \<and> sinkCalls (main_part000 blocks port q t (Inr addrs)) = sinkCalls (main blocks port q (Inr addrs))"
  by (simp add: sinkCalls_main sinkCalls_main_part000 sinkCalls_main_selection split: option.splits)

text \<open>
  C2. For a candidate and a list of patterns in which \<open>pre\<close> is the first pattern that
  is a string prefix of the candidate's textual form, the loop over the patterns
  invokes the Presentation Sink once, with the candidate's URL, whatever patterns come
  after \<open>pre\<close>; and over a run of the loop over the addresses the invocations are the
  URLs of the candidates that match some pattern, one for each, in the order of the
  addresses. The same holds in both files.
\<close>

theorem first_matching_prefix_invokes_sink:
  "(\<not> list_ex (HasPrefix (IP_String ip)) before \<and> HasPrefix (IP_String ip) pre \<longrightarrow>
      main_prefixes_loop (IP_String ip) (link_of port ip) (before @ pre # rest) st
        = st\<lparr>events := events st @ [GenerateWithConfig (link_of port ip)], qrGenerated := True\<rparr>)
   \<and> (\<not> list_ex (HasPrefix (IP_String ip)) prefixes \<longrightarrow>
      main_prefixes_loop (IP_String ip) (link_of port ip) prefixes st = st)
   \<and> sinkCalls (events (main_addrs_loop blocks port prefixes addrs
        \<lparr>qrGenerated = False, fallbackIP = [], fallbackLink = [], events = []\<rparr>))
       = map (link_of port) (filter (matches prefixes) (candidates addrs))
   \<and> main_prefixes_loop_part000 (IP_String ip) (link_of port ip) prefixes st
       = main_prefixes_loop (IP_String ip) (link_of port ip) prefixes st
   \<and> main_addrs_loop_part000 blocks port prefixes addrs st
       = main_addrs_loop blocks port prefixes addrs st"
  by (simp add: main_prefixes_loop_first_match main_prefixes_loop_char main_addrs_loop_char
      sinkCalls_candidate_events main_prefixes_loop_part000_eq main_addrs_loop_part000_eq)

theorem first_matching_prefix_invokes_sink_witness:
  "\<not> list_ex (HasPrefix (IP_String [10, 0, 0, 5])) [''192'']
   \<and> HasPrefix (IP_String [10, 0, 0, 5]) ''10''
   \<and> main_prefixes_loop (IP_String [10, 0, 0, 5]) (link_of 3000 [10, 0, 0, 5])
        ([''192''] @ ''10'' # [''10.0'', ''172''])
        \<lparr>qrGenerated = False, fallbackIP = [], fallbackLink = [], events = []\<rparr>
      = \<lparr>qrGenerated = True, fallbackIP = [], fallbackLink = [],
         events = [GenerateWithConfig ''http://10.0.0.5:3000'']\<rparr>
   \<and> \<not> list_ex (HasPrefix (IP_String [8, 8, 8, 8])) [''192'', ''10'']
   \<and> main_prefixes_loop (IP_String [8, 8, 8, 8]) (link_of 3000 [8, 8, 8, 8]) [''192'', ''10'']
        \<lparr>qrGenerated = False, fallbackIP = [], fallbackLink = [], events = []\<rparr>
      = \<lparr>qrGenerated = False, fallbackIP = [], fallbackLink = [], events = []\<rparr>"
  using first_matching_prefix_invokes_sink [of "[10, 0, 0, 5]" "[''192'']" "''10''" 3000
      "[''10.0'', ''172'']" "\<lparr>qrGenerated = False, fallbackIP = [], fallbackLink = [], events = []\<rparr>"]
    first_matching_prefix_invokes_sink [of "[8, 8, 8, 8]" "[]" "''x''" 3000 "[]"
      "\<lparr>qrGenerated = False, fallbackIP = [], fallbackLink = [], events = []\<rparr>"
      "[''192'', ''10'']"]
  by (simp add: HasPrefix_def IP_String_def To4_def link_of_def Itoa_def decimal_eval char_of_digits)

text \<open>
  C3. The first public candidate is kept as the fallback whatever the prefixes match.
  When no candidate matches a prefix, the Presentation Sink is invoked exactly once,
  with the URL of the first public candidate, if there is one, and never if there is
  none.
\<close>

theorem fallback_is_first_public_candidate:
  "fallbackIP (main_addrs_loop blocks port prefixes addrs
       \<lparr>qrGenerated = False, fallbackIP = [], fallbackLink = [], events = []\<rparr>)
     = (case first_public blocks (candidates addrs) of None \<Rightarrow> [] | Some ip \<Rightarrow> ip)
   \<and> (\<not> list_ex (matches (parsePrefixes q)) (candidates addrs) \<longrightarrow>
        sinkCalls (main blocks port q (Inr addrs)) =
          (case first_public blocks (candidates addrs) of
             None \<Rightarrow> []
           | Some ip \<Rightarrow> [link_of port ip]))"
  by (simp add: main_addrs_loop_char sinkCalls_main sinkCalls_main_selection)

theorem fallback_is_first_public_candidate_witness:
  "\<not> list_ex (matches (parsePrefixes ''192''))
        (candidates [Addr_IPNet \<lparr>IP = [8, 8, 8, 8], Mask = [255, 255, 255, 0]\<rparr>])
   \<and> sinkCalls (main builtinBlocks 3000 ''192''
        (Inr [Addr_IPNet \<lparr>IP = [8, 8, 8, 8], Mask = [255, 255, 255, 0]\<rparr>]))
      = [''http://8.8.8.8:3000'']
   \<and> \<not> list_ex (matches (parsePrefixes ''192''))
        (candidates [Addr_IPNet \<lparr>IP = [10, 0, 0, 5], Mask = [255, 0, 0, 0]\<rparr>])
   \<and> sinkCalls (main builtinBlocks 3000 ''192''
        (Inr [Addr_IPNet \<lparr>IP = [10, 0, 0, 5], Mask = [255, 0, 0, 0]\<rparr>]))
      = []"
  using fallback_is_first_public_candidate [of builtinBlocks 3000 "[]"
      "[Addr_IPNet \<lparr>IP = [8, 8, 8, 8], Mask = [255, 255, 255, 0]\<rparr>]" "''192''"]
    fallback_is_first_public_candidate [of builtinBlocks 3000 "[]"
      "[Addr_IPNet \<lparr>IP = [10, 0, 0, 5], Mask = [255, 0, 0, 0]\<rparr>]" "''192''"]
  by (simp add: matches_def first_public_def link_of_def run_eval)

text \<open>
  C4. \<open>parsePrefixes\<close> is a total function of its input alone that treats commas as white
  space, splits at every run of white space, discards the empty tokens and keeps the
  order of the input: it computes \<open>parsePrefixes_spec\<close>, in both files, and no token is
  empty. On \<open>"192,10 172"\<close> it gives \<open>["192", "10", "172"]\<close>, on the empty string the
  empty list, and on \<open>"  a ,, b"\<close> it gives \<open>["a", "b"]\<close>.
\<close>

theorem parsePrefixes_splits_at_commas_and_spaces:
  "parsePrefixes input = parsePrefixes_spec input
   \<and> parsePrefixes_part000 input = parsePrefixes_spec input
   \<and> [] \<notin> set (parsePrefixes input)
   \<and> parsePrefixes ''192,10 172'' = [''192'', ''10'', ''172'']
   \<and> parsePrefixes [] = []
   \<and> parsePrefixes ''  a ,, b'' = [''a'', ''b'']"
proof -
  have "parsePrefixes ''192,10 172'' = [''192'', ''10'', ''172'']"
    by (simp add: parsePrefixes_eval)
  moreover have "parsePrefixes [] = []"
    by (simp add: parsePrefixes_eval)
  moreover have "parsePrefixes ''  a ,, b'' = [''a'', ''b'']"
    by (simp add: parsePrefixes_eval)
  moreover have "parsePrefixes_part000 input = parsePrefixes_spec input"
    by (simp only: parsePrefixes_part000_eq parsePrefixes_refines)
  moreover note parsePrefixes_refines [of input] parsePrefixes_no_empty_token [of input]
  ultimately show ?thesis by blast
qed

text \<open>
  C5. With the table that \<open>init\<close> builds, \<open>isPrivateIP\<close> is true for every address in
  the loopback ranges (127.0.0.0/8, ::1/128), the RFC1918 ranges (10/8, 172.16/12,
  192.168/16), the link-local ranges (169.254/16, fe80::/10) and the unique-local range
  (fc00::/7), also for an IPv4 address of these ranges in its 16-byte form, and it is
  false for 8.8.8.8. It is a function of the table and the address alone.
\<close>

theorem isPrivateIP_on_reserved_ranges:
  assumes "init = Inr privateIPBlocks"
  shows "(inReservedRange ip \<longrightarrow> isPrivateIP privateIPBlocks ip)
       \<and> (inReservedRange (To4 ip) \<longrightarrow> isPrivateIP privateIPBlocks ip)
       \<and> \<not> isPrivateIP privateIPBlocks [8, 8, 8, 8]"
proof -
  from assms have t: "privateIPBlocks = builtinBlocks" by (simp add: init_value)
  have "isPrivateIP builtinBlocks ip" if r: "inReservedRange (To4 ip)"
  proof -
    from r have "To4 ip \<noteq> []"
      by (auto simp: inReservedRange_def reservedRanges_def inCIDR_def)
    then show ?thesis using inReservedRange_private [OF r] by (simp add: isPrivateIP_To4)
  qed
  then show ?thesis
    unfolding t using inReservedRange_private [of ip] public_8888 by blast
qed

theorem isPrivateIP_on_reserved_ranges_witness:
  "init = Inr builtinBlocks
   \<and> inReservedRange [172, 31, 255, 255] \<and> isPrivateIP builtinBlocks [172, 31, 255, 255]
   \<and> inReservedRange (To4 [0, 0, 0, 0, 0, 0, 0, 0, 0, 0, 0xff, 0xff, 10, 0, 0, 5])
   \<and> isPrivateIP builtinBlocks [0, 0, 0, 0, 0, 0, 0, 0, 0, 0, 0xff, 0xff, 10, 0, 0, 5]
   \<and> \<not> isPrivateIP builtinBlocks [8, 8, 8, 8]"
proof -
  have "To4 [0, 0, 0, 0, 0, 0, 0, 0, 0, 0, 0xff, 0xff, 10, 0, 0, 5] = [10, 0, 0, 5]"
    by (simp add: To4_def)
  then show ?thesis
    using isPrivateIP_on_reserved_ranges [OF init_value, of "[172, 31, 255, 255]"]
      isPrivateIP_on_reserved_ranges [OF init_value,
        of "[0, 0, 0, 0, 0, 0, 0, 0, 0, 0, 0xff, 0xff, 10, 0, 0, 5]"]
      inReservedRange_examples init_value
    by simp
qed

text \<open>
  C6. \<open>setupPrivateIPBlocks\<close> panics at the first entry that does not parse, with a
  message that names the entry and the parse error, and gives no table then; when every
  entry parses it appends the network of every entry. A malformed entry in the middle
  of a table aborts. The eight entries of the program all parse: \<open>init\<close> does not panic
  and builds the table of eight networks. The same holds in both files.
\<close>

theorem setupPrivateIPBlocks_aborts_or_builds_whole_table:
  "setupPrivateIPBlocks_loop cidrs blocks =
    (case find (\<lambda>cidr. isl (ParseCIDR cidr)) cidrs of
      Some cidr \<Rightarrow> Inl (Errorf ''parse error on %q: %v'' cidr (projl (ParseCIDR cidr)))
    | None \<Rightarrow> Inr (blocks @ map (\<lambda>cidr. snd (projr (ParseCIDR cidr))) cidrs))
   \<and> setupPrivateIPBlocks_loop_part000 cidrs blocks = setupPrivateIPBlocks_loop cidrs blocks
   \<and> setupPrivateIPBlocks_loop [''10.0.0.0/8'', ''10.0.0/8'', ''fc00::/7''] [] =
       Inl (Errorf ''parse error on %q: %v'' ''10.0.0/8'' (ParseError ''CIDR address'' ''10.0.0/8''))
   \<and> init = Inr builtinBlocks \<and> init_part000 = Inr builtinBlocks
   \<and> length builtinBlocks = 8"
proof -
  have "setupPrivateIPBlocks_loop [''10.0.0.0/8'', ''10.0.0/8'', ''fc00::/7''] [] =
       Inl (Errorf ''parse error on %q: %v'' ''10.0.0/8'' (ParseError ''CIDR address'' ''10.0.0/8''))"
    by (simp add: ParseCIDR_builtin ParseCIDR_malformed)
  moreover have "length builtinBlocks = 8" by (simp add: builtinBlocks_def)
  moreover note setupPrivateIPBlocks_loop_char [of cidrs blocks]
    setupPrivateIPBlocks_loop_part000_eq [of cidrs blocks] init_value init_part000_value
  ultimately show ?thesis by blast
qed

theorem setupPrivateIPBlocks_aborts_or_builds_whole_table_witness:
  "setupPrivateIPBlocks_loop [''172.16.0.0/12'', ''::1/129'', ''10.0.0.0/8''] [] =
     Inl (Errorf ''parse error on %q: %v'' ''::1/129'' (ParseError ''CIDR address'' ''::1/129''))
   \<and> setupPrivateIPBlocks_loop [''172.16.0.0/12'', ''10.0.0.0/8'']
        [\<lparr>IP = [127, 0, 0, 0], Mask = [255, 0, 0, 0]\<rparr>] =
     Inr [\<lparr>IP = [127, 0, 0, 0], Mask = [255, 0, 0, 0]\<rparr>,
          \<lparr>IP = [172, 16, 0, 0], Mask = [255, 240, 0, 0]\<rparr>,
          \<lparr>IP = [10, 0, 0, 0], Mask = [255, 0, 0, 0]\<rparr>]"
proof -
  have "ParseCIDR ''::1/129'' = Inl (ParseError ''CIDR address'' ''::1/129'')"
    by (simp add: ParseCIDR_eval)
  then show ?thesis
    using setupPrivateIPBlocks_aborts_or_builds_whole_table
        [of "[''172.16.0.0/12'', ''::1/129'', ''10.0.0.0/8'']" "[]"]
      setupPrivateIPBlocks_aborts_or_builds_whole_table
        [of "[''172.16.0.0/12'', ''10.0.0.0/8'']" "[\<lparr>IP = [127, 0, 0, 0], Mask = [255, 0, 0, 0]\<rparr>]"]
    by (simp add: ParseCIDR_builtin)
qed

text \<open>
  C7. When \<open>net.InterfaceAddrs\<close> fails, \<open>main\<close> reports the error with \<open>log.Fatal\<close>, which
  exits with status 1, and does nothing else: no address is logged, no QR code is
  generated and the server is not started. The same holds in both files.
\<close>

theorem main_exits_when_InterfaceAddrs_fails:
  "main blocks port q (Inl err) = [Log_Fatal err, Exit 1]
   \<and> main_part000 blocks port q t (Inl err) = [Log_Fatal err, Exit 1]
   \<and> program port q (Inl err) = [Log_Fatal err, Exit 1]
   \<and> program_part000 port q t (Inl err) = [Log_Fatal err, Exit 1]"
  by (simp add: main_def main_part000_def program_def program_part000_def init_value
      init_part000_value)

text \<open>
  C8. The claim is that the first of the timer and the signal moves the session to
  stopping, that a later occurrence of the timer or of a signal has no additional
  effect, and that a stopping session is never serving again. In \<open>src/unnamed/part_000\<close>
  a later occurrence has an effect: when the signal has moved the session to stopping
  and the timer then fires, the timer's function calls the cancel function of
  \<open>shutdownCtx\<close>, so that \<open>srv.Shutdown\<close> returns \<open>context.Canceled\<close>, the server is forced to
  shut down and the grace period ends, where without the timer the session is still
  stopping; and likewise for a signal after the timer.
\<close>

theorem later_trigger_cancels_grace_period:
  "lifecycle_run 5 [Signal_arrives, Signal_goroutine_runs, Main_runs] =
     \<lparr>cancel = cancel_of_shutdownCtx, ctx_done = True, shutdownCtx_err = None,
      timer_pending = True, signal_goroutine_waiting = False, sigChan = 0,
      phase = Stopping, log_lines = [Log_Received_interrupt]\<rparr>
   \<and> lifecycle_run 5 [Signal_arrives, Signal_goroutine_runs, Main_runs, Timer_fires] =
     \<lparr>cancel = cancel_of_shutdownCtx, ctx_done = True, shutdownCtx_err = Some Canceled,
      timer_pending = False, signal_goroutine_waiting = False, sigChan = 0,
      phase = Stopping, log_lines = [Log_Received_interrupt]\<rparr>
   \<and> lifecycle_run 5 [Signal_arrives, Signal_goroutine_runs, Main_runs, Timer_fires, Main_runs] =
     \<lparr>cancel = cancel_of_shutdownCtx, ctx_done = True, shutdownCtx_err = Some Canceled,
      timer_pending = False, signal_goroutine_waiting = False, sigChan = 0,
      phase = Stopped,
      log_lines = [Log_Received_interrupt, Log_Server_forced_to_shutdown Canceled]\<rparr>
   \<and> lifecycle_run 5 [Signal_arrives, Signal_goroutine_runs, Main_runs, Main_runs] =
       lifecycle_run 5 [Signal_arrives, Signal_goroutine_runs, Main_runs]
   \<and> lifecycle_run 5 [Timer_fires, Main_runs, Signal_arrives, Signal_goroutine_runs, Main_runs] =
     \<lparr>cancel = cancel_of_shutdownCtx, ctx_done = True, shutdownCtx_err = Some Canceled,
      timer_pending = False, signal_goroutine_waiting = False, sigChan = 0,
      phase = Stopped,
      log_lines = [Log_Received_interrupt, Log_Server_forced_to_shutdown Canceled]\<rparr>
   \<and> lifecycle_run 5 [Timer_fires, Main_runs, Main_runs] =
     \<lparr>cancel = cancel_of_shutdownCtx, ctx_done = True, shutdownCtx_err = None,
      timer_pending = False, signal_goroutine_waiting = True, sigChan = 0,
      phase = Stopping, log_lines = []\<rparr>"
  by (simp add: lifecycle_eval)

text \<open>
  C9. The two files select the same way: \<open>init\<close> builds the same table, the selection of
  \<open>main\<close> gives the same events for the same table, port, prefix flag and addresses, and
  the log lines of the addresses and the QR codes of a run are the same in both
  programs, whatever \<open>net.InterfaceAddrs\<close> returns and whatever the timeout is.
\<close>

theorem selection_is_the_same_in_both_files:
  "init_part000 = init
   \<and> main_selection_part000 blocks port q addrs = main_selection blocks port q addrs
   \<and> filter selection_event (program_part000 port q t interfaceAddrs)
       = filter selection_event (program port q interfaceAddrs)"
proof -
  have "filter selection_event (program_part000 port q t interfaceAddrs)
       = filter selection_event (program port q interfaceAddrs)"
    by (cases interfaceAddrs)
       (simp_all add: program_def program_part000_def init_value init_part000_value main_def
          main_part000_def main_selection_part000_eq)
  then show ?thesis
    by (simp add: init_part000_eq main_selection_part000_eq)
qed

text \<open>
  C10. When the prefix flag parses to no pattern, no candidate matches: the
  Presentation Sink is invoked if and only if some candidate is public, and then exactly
  once, with the URL of the first public candidate. The same holds in both files.
\<close>

theorem no_pattern_gives_public_fallback:
  assumes "parsePrefixes q = []"
  shows "sinkCalls (main blocks port q (Inr addrs)) =
          (case first_public blocks (candidates addrs) of
             None \<Rightarrow> []
           | Some ip \<Rightarrow> [link_of port ip])
       \<and> (sinkCalls (main blocks port q (Inr addrs)) \<noteq> [])
           = list_ex (\<lambda>ip. \<not> isPrivateIP blocks ip) (candidates addrs)
       \<and> sinkCalls (main_part000 blocks port q t (Inr addrs))
           = sinkCalls (main blocks port q (Inr addrs))"
proof -
  have nm: "\<not> list_ex (matches (parsePrefixes q)) (candidates addrs)"
    using assms by (simp add: list_ex_iff matches_def)
  have fp: "(first_public blocks ips = None)
      = (\<not> list_ex (\<lambda>ip. \<not> isPrivateIP blocks ip) ips)" for ips
    by (induction ips) (simp_all add: first_public_def)
  show ?thesis
    using nm fp [of "candidates addrs"]
    by (cases "first_public blocks (candidates addrs)")
       (simp_all add: sinkCalls_main sinkCalls_main_part000 sinkCalls_main_selection)
qed

theorem no_pattern_gives_public_fallback_witness:
  "parsePrefixes '' ,, '' = []
   \<and> sinkCalls (main builtinBlocks 8080 '' ,, ''
        (Inr [Addr_IPNet \<lparr>IP = [192, 168, 1, 2], Mask = [255, 255, 255, 0]\<rparr>,
              Addr_IPNet \<lparr>IP = [8, 8, 8, 8], Mask = [255, 255, 255, 0]\<rparr>,
              Addr_IPNet \<lparr>IP = [1, 1, 1, 1], Mask = [255, 255, 255, 0]\<rparr>]))
      = [''http://8.8.8.8:8080'']"
proof -
  have e: "parsePrefixes '' ,, '' = []" by (simp add: parsePrefixes_eval)
  show ?thesis
    using no_pattern_gives_public_fallback [OF e, of builtinBlocks 8080
        "[Addr_IPNet \<lparr>IP = [192, 168, 1, 2], Mask = [255, 255, 255, 0]\<rparr>,
          Addr_IPNet \<lparr>IP = [8, 8, 8, 8], Mask = [255, 255, 255, 0]\<rparr>,
          Addr_IPNet \<lparr>IP = [1, 1, 1, 1], Mask = [255, 255, 255, 0]\<rparr>]"] e
    by (simp add: first_public_def link_of_def run_eval)
qed

end
